theory Spec2Isabelle
  imports Main "HOL-Library.Word"
begin

unbundle bit_operations_syntax

section \<open>Python values\<close>

text \<open>
  Bytes objects are lists of 8-bit words. A Python \<open>str\<close> that is encoded to UTF-8 (the
  message to sign) is a list of code points, each below \<open>0x110000\<close>; lone surrogates
  (\<open>0xD800\<close> to \<open>0xDFFF\<close>) are legal in a \<open>str\<close> (\<open>json.loads\<close> produces them from
  escapes) and make \<open>str.encode('utf-8')\<close> raise. Addresses, URLs, file keys and typed
  input lines are \<open>string\<close>s.
\<close>

type_synonym byte = "8 word"
type_synonym bytes = "byte list"
type_synonym pystr = "nat list"

datatype error =
    UnicodeEncodeError
  | NameError string
  | ValueError string
  | LibraryError string
  | JSONDecodeError
  | KeyError string
  | TypeError
  | IndexError

text \<open>\<open>bytes.hex()\<close>: two lowercase hexadecimal digits per byte.\<close>

definition hexdigit :: "nat \<Rightarrow> char" where
  "hexdigit d = ''0123456789abcdef'' ! d"

definition hex :: "bytes \<Rightarrow> string" where
  "hex bs = concat (map (\<lambda>b. [hexdigit (unat b div 16), hexdigit (unat b mod 16)]) bs)"

text \<open>\<open>str(index)\<close> of a non-negative integer, as the f-string \<open>f"m/0/{index}"\<close> formats it.\<close>

fun dec :: "nat \<Rightarrow> string" where
  "dec n = (if n < 10 then [''0123456789'' ! n]
            else dec (n div 10) @ [''0123456789'' ! (n mod 10)])"

text \<open>\<open>message.encode('utf-8')\<close>.\<close>

definition is_surrogate :: "nat \<Rightarrow> bool" where
  "is_surrogate c = (0xD800 \<le> c \<and> c < 0xE000)"

definition utf8_char :: "nat \<Rightarrow> bytes" where
  "utf8_char c =
     (if c < 0x80 then [of_nat c]
      else if c < 0x800 then [of_nat (0xC0 + c div 64), of_nat (0x80 + c mod 64)]
      else if c < 0x10000 then
        [of_nat (0xE0 + c div 4096), of_nat (0x80 + c div 64 mod 64), of_nat (0x80 + c mod 64)]
      else
        [of_nat (0xF0 + c div 262144), of_nat (0x80 + c div 4096 mod 64),
         of_nat (0x80 + c div 64 mod 64), of_nat (0x80 + c mod 64)])"

definition encode_utf8 :: "pystr \<Rightarrow> error + bytes" where
  "encode_utf8 s =
     (if list_ex is_surrogate s then Inl UnicodeEncodeError
      else Inr (concat (map utf8_char s)))"

text \<open>A string literal of the program, as a \<open>str\<close> of code points.\<close>

definition S :: "string \<Rightarrow> pystr" where
  "S s = map of_char s"

section \<open>The libraries\<close>

text \<open>
  The values handed to \<open>cbor2.dumps\<close>: integers, byte strings, text strings, booleans,
  lists and dicts (in insertion order).
\<close>

datatype cbor =
    CInt int
  | CBytes bytes
  | CText string
  | CBool bool
  | CArray "cbor list"
  | CMap "(cbor \<times> cbor) list"

datatype network = TESTNET | MAINNET

text \<open>A pycardano \<open>Address\<close> object, as the program constructs it.\<close>

record addr_obj =
  payment_part :: bytes
  staking_part :: bytes
  network :: network

text \<open>
  pycardano and cbor2 are not part of the repository: their functions are parameters.
  \<open>'w\<close> is the type of \<open>HDWallet\<close> objects. Signing and verification keys are their
  byte strings (\<open>from_primitive\<close> wraps the bytes it is given).
\<close>

record 'w pylib =
  from_mnemonic :: "string \<Rightarrow> error + 'w"
  derive_from_path :: "'w \<Rightarrow> string \<Rightarrow> 'w"
  xprivate_key :: "'w \<Rightarrow> bytes"
  from_signing_key :: "bytes \<Rightarrow> bytes"
  key_hash :: "bytes \<Rightarrow> bytes"
  address_str :: "addr_obj \<Rightarrow> string"
  to_primitive :: "addr_obj \<Rightarrow> bytes"
  sign :: "bytes \<Rightarrow> bytes \<Rightarrow> bytes"
  cbor_dumps :: "cbor \<Rightarrow> bytes"

definition NETWORK :: network where
  "NETWORK = MAINNET"

definition API_BASE :: string where
  "API_BASE = ''https://scavenger.prod.gd.midnighttge.io''"

section \<open>Derivation of the addresses\<close>

text \<open>One entry of the list \<open>derive_addresses_from_mnemonic\<close> returns.\<close>

record addr_info =
  index :: nat
  address :: string
  address_obj :: addr_obj
  payment_skey :: bytes
  payment_vkey :: bytes

text \<open>The body of the loop \<open>for index in range(count)\<close>.\<close>

definition derive_one :: "'w pylib \<Rightarrow> 'w \<Rightarrow> bytes \<Rightarrow> nat \<Rightarrow> addr_info" where
  "derive_one lib account_hdwallet stake_vkey i =
     (let payment_hdwallet = derive_from_path lib account_hdwallet (''m/0/'' @ dec i);
          skey = take 32 (xprivate_key lib payment_hdwallet);
          vkey = from_signing_key lib skey;
          addr = \<lparr>payment_part = key_hash lib vkey,
                  staking_part = key_hash lib stake_vkey,
                  network = NETWORK\<rparr>
      in \<lparr>index = i, address = address_str lib addr, address_obj = addr,
          payment_skey = skey, payment_vkey = vkey\<rparr>)"

definition account_path :: string where
  "account_path = ''m/1852'' @ [CHR 0x27] @ ''/1815'' @ [CHR 0x27] @ ''/0'' @ [CHR 0x27]"

definition derive_addresses_from_mnemonic ::
  "'w pylib \<Rightarrow> string \<Rightarrow> int \<Rightarrow> error + addr_info list" where
  "derive_addresses_from_mnemonic lib mnemonic count =
     (case from_mnemonic lib mnemonic of
        Inl e \<Rightarrow> Inl e
      | Inr hdwallet \<Rightarrow>
          (let account_hdwallet = derive_from_path lib hdwallet account_path;
               stake_hdwallet = derive_from_path lib account_hdwallet ''m/2/0'';
               stake_skey = take 32 (xprivate_key lib stake_hdwallet);
               stake_vkey = from_signing_key lib stake_skey
           in Inr (map (derive_one lib account_hdwallet stake_vkey) [0..<nat count])))"

section \<open>The signature envelope\<close>

definition sign_cip30_message ::
  "'w pylib \<Rightarrow> pystr \<Rightarrow> bytes \<Rightarrow> addr_obj \<Rightarrow> error + string" where
  "sign_cip30_message lib message skey addr =
     (let address_bytes = to_primitive lib addr;
          protected_map = CMap [(CInt 1, CInt (- 8)),
                                (CInt 4, CBytes address_bytes),
                                (CText ''address'', CBytes address_bytes)];
          protected = cbor_dumps lib protected_map;
          unprotected = CMap [(CText ''hashed'', CBool False)]
      in case encode_utf8 message of
           Inl e \<Rightarrow> Inl e
         | Inr payload \<Rightarrow>
             (let sig_structure = cbor_dumps lib
                    (CArray [CText ''Signature1'', CBytes protected, CBytes [], CBytes payload]);
                  signature_bytes = sign lib skey sig_structure;
                  cose_sign1 = cbor_dumps lib
                    (CArray [CBytes protected, unprotected, CBytes payload, CBytes signature_bytes])
              in Inr (hex cose_sign1)))"

section \<open>The environment: files, network, clock\<close>

text \<open>Decoded JSON, as \<open>response.json()\<close> returns it.\<close>

datatype json =
    JNull
  | JBool bool
  | JNum int
  | JStr string
  | JList "json list"
  | JObj "(string \<times> json) list"

text \<open>
  A \<open>requests\<close> response: \<open>json_body\<close> is \<open>None\<close> when \<open>response.json()\<close> raises,
  \<open>retry_after\<close> is the \<open>Retry-After\<close> header if present.
\<close>

record response =
  status_code :: nat
  retry_after :: "string option"
  json_body :: "json option"
  body_text :: string

text \<open>\<open>response.ok\<close>: the status is not in the range 400 to 599.\<close>

definition ok :: "response \<Rightarrow> bool" where
  "ok r = (\<not> (400 \<le> status_code r \<and> status_code r < 600))"

text \<open>
  A ledger entry is a flat JSON object with string values, and a ledger file holds either
  text that \<open>json.load\<close> rejects or a list of such entries, which is the shape the
  registration program writes. Files of other JSON shapes are outside the model.
\<close>

type_synonym entry = "(string \<times> string) list"

datatype ledger_file = Unparsable | Parsed "entry list"

record files =
  registrations_partial :: "ledger_file option"
  registrations_json :: "ledger_file option"
  registrations_new :: "ledger_file option"
  consolidation_results :: "json option"

text \<open>
  What a run does to the outside world, in the order it happens. \<open>Sign a\<close> is one call of
  the signing primitive with the key of address \<open>a\<close>; \<open>Post a url r\<close> and \<open>Get url\<close> are the
  network calls, a \<open>Post\<close> with the address it is made for and with what came back (the
  exception raised, or the response); \<open>Sleep\<close> is \<open>time.sleep\<close> in milliseconds; the others
  are file operations. Printing is not recorded.
\<close>

datatype event =
    Sign string
  | Get string
  | Post string string "error + response"
  | Sleep nat
  | WriteLedger string "entry list"
  | WriteResults string json
  | Remove string

record world =
  trace :: "event list"
  files :: files

text \<open>
  The remote service and the Python runtime, as functions of what has happened so far:
  the outcome of a POST to a URL, the outcome of fetching and decoding the message of
  \<open>GET /TandC\<close> (lines 79 to 82 of the registration program), and \<open>str()\<close> of an exception
  and of a decoded JSON value.
\<close>

record env =
  http_post :: "event list \<Rightarrow> string \<Rightarrow> error + response"
  get_message :: "event list \<Rightarrow> error + pystr"
  str_exn :: "error \<Rightarrow> string"
  str_json :: "json \<Rightarrow> string"

definition emit :: "event \<Rightarrow> world \<Rightarrow> world" where
  "emit e w = w\<lparr>trace := trace w @ [e]\<rparr>"

text \<open>The dicts that \<open>register_address\<close> and \<open>consolidate_address\<close> return.\<close>

type_synonym result = "(string \<times> json) list"

definition success :: "result \<Rightarrow> bool" where
  "success r = (map_of r ''success'' = Some (JBool True))"

section \<open>Registration\<close>

definition register_url :: "string \<Rightarrow> string \<Rightarrow> string \<Rightarrow> string" where
  "register_url addr signature pubkey =
     API_BASE @ ''/register/'' @ addr @ ''/'' @ signature @ ''/'' @ pubkey"

definition register_result :: "env \<Rightarrow> error + response \<Rightarrow> result" where
  "register_result ev r =
     (case r of
        Inl e \<Rightarrow> [(''success'', JBool False), (''error'', JStr (str_exn ev e))]
      | Inr resp \<Rightarrow>
          if status_code resp = 429 then
            [(''success'', JBool False),
             (''error'', JStr (''Rate limited (retry after: ''
                @ (case retry_after resp of Some h \<Rightarrow> h | None \<Rightarrow> ''unknown'') @ '')'')),
             (''rate_limited'', JBool True)]
          else if ok resp then
            (case json_body resp of
               Some j \<Rightarrow> [(''success'', JBool True), (''data'', j)]
             | None \<Rightarrow> [(''success'', JBool True),
                        (''data'', JObj [(''message'', JStr ''Registered (no JSON response)'')])])
          else
            (case json_body resp of
               Some j \<Rightarrow> [(''success'', JBool False), (''error'', j),
                          (''status'', JNum (int (status_code resp)))]
             | None \<Rightarrow> [(''success'', JBool False),
                        (''error'', JStr (''HTTP '' @ dec (status_code resp) @ '': ''
                           @ take 100 (body_text resp))),
                        (''status'', JNum (int (status_code resp)))]))"

definition register_address ::
  "env \<Rightarrow> string \<Rightarrow> string \<Rightarrow> string \<Rightarrow> world \<Rightarrow> result \<times> world" where
  "register_address ev addr signature pubkey w =
     (let url = register_url addr signature pubkey;
          r = http_post ev (trace w) url
      in (register_result ev r, emit (Post addr url r) w))"

definition temp_file :: string where
  "temp_file = ''registrations-partial.json''"

text \<open>
  Lines 164 to 175: the ledger of a previous run. The second component is the variable
  \<open>registered_addrs\<close>, \<open>None\<close> when no assignment to it was executed: the file exists and
  \<open>json.load\<close> or the lookup \<open>r['address']\<close> raised, and the bare \<open>except\<close> passed.
\<close>

definition has_address :: "entry \<Rightarrow> bool" where
  "has_address r = (map_of r ''address'' \<noteq> None)"

definition load_partial :: "files \<Rightarrow> entry list \<times> string set option" where
  "load_partial fs =
     (case registrations_partial fs of
        None \<Rightarrow> ([], Some {})
      | Some Unparsable \<Rightarrow> ([], None)
      | Some (Parsed es) \<Rightarrow>
          if list_all has_address es
          then (es, Some (set (map (\<lambda>r. the (map_of r ''address'')) es)))
          else (es, None))"

definition reg_entry :: "string \<Rightarrow> string \<Rightarrow> string \<Rightarrow> entry" where
  "reg_entry addr signature pubkey =
     [(''address'', addr), (''signature'', signature), (''pubkey'', pubkey)]"

text \<open>
  Lines 192 to 226, the \<open>try\<close> block for one address that is not in the ledger. An exception
  of the signing function is caught and printed; so is a failure result.
\<close>

definition register_one ::
  "'w pylib \<Rightarrow> env \<Rightarrow> pystr \<Rightarrow> addr_info \<Rightarrow> entry list \<times> string set \<times> world
     \<Rightarrow> entry list \<times> string set \<times> world" where
  "register_one lib ev message a st =
     (case st of (regs, addrs, w) \<Rightarrow>
        (case sign_cip30_message lib message (payment_skey a) (address_obj a) of
           Inl e \<Rightarrow> (regs, addrs, w)
         | Inr signature \<Rightarrow>
             (let w1 = emit (Sign (address a)) w;
                  pubkey = hex (payment_vkey a);
                  (res, w2) = register_address ev (address a) signature pubkey w1
              in if success res then
                   (let regs' = regs @ [reg_entry (address a) signature pubkey];
                        w3 = emit (WriteLedger temp_file regs') w2
                    in (regs', insert (address a) addrs,
                        w3\<lparr>files := (files w3)\<lparr>registrations_partial := Some (Parsed regs')\<rparr>\<rparr>))
                 else (regs, addrs, w2))))"

text \<open>
  The loop of lines 179 to 231 over \<open>enumerate(addresses)\<close>; \<open>n\<close> is \<open>len(addresses)\<close>
  and \<open>i\<close> the index of the head of the remaining list. Reading the unbound
  \<open>registered_addrs\<close> raises \<open>NameError\<close> outside the \<open>try\<close> block, which ends the function.
\<close>

fun register_loop ::
  "'w pylib \<Rightarrow> env \<Rightarrow> pystr \<Rightarrow> nat \<Rightarrow> nat \<Rightarrow> addr_info list
     \<Rightarrow> entry list \<times> string set option \<times> world \<Rightarrow> (error + entry list) \<times> world" where
  "register_loop lib ev message n i [] (regs, addrs, w) = (Inr regs, w)"
| "register_loop lib ev message n i (a # rest) (regs, addrs, w) =
     (case addrs of
        None \<Rightarrow> (Inl (NameError ''registered_addrs''), w)
      | Some ra \<Rightarrow>
          if address a \<in> ra then register_loop lib ev message n (Suc i) rest (regs, addrs, w)
          else
            (case register_one lib ev message a (regs, ra, w) of (regs', ra', w') \<Rightarrow>
               register_loop lib ev message n (Suc i) rest
                 (regs', Some ra', if Suc i < n then emit (Sleep 2000) w' else w')))"

definition register_all_addresses ::
  "'w pylib \<Rightarrow> env \<Rightarrow> addr_info list \<Rightarrow> pystr \<Rightarrow> world \<Rightarrow> (error + entry list) \<times> world" where
  "register_all_addresses lib ev addresses message w =
     (case load_partial (files w) of (regs, addrs) \<Rightarrow>
        register_loop lib ev message (length addresses) 0 addresses (regs, addrs, w))"

section \<open>Consolidation\<close>

definition donate_url :: "string \<Rightarrow> string \<Rightarrow> string \<Rightarrow> string" where
  "donate_url destination original signature =
     API_BASE @ ''/donate_to/'' @ destination @ ''/'' @ original @ ''/'' @ signature"

definition consolidate_result :: "env \<Rightarrow> string \<Rightarrow> error + response \<Rightarrow> result" where
  "consolidate_result ev url r =
     (case r of
        Inl e \<Rightarrow> [(''success'', JBool False), (''error'', JStr (str_exn ev e))]
      | Inr resp \<Rightarrow>
          if ok resp then
            (case json_body resp of
               Some j \<Rightarrow> [(''success'', JBool True), (''data'', j)]
             | None \<Rightarrow> [(''success'', JBool True),
                        (''data'', JObj [(''message'', JStr ''Success (no JSON response)'')])])
          else
            (case json_body resp of
               Some j \<Rightarrow> [(''success'', JBool False), (''error'', j),
                          (''status'', JNum (int (status_code resp))),
                          (''url'', JStr (take 100 url))]
             | None \<Rightarrow> [(''success'', JBool False),
                        (''error'', JStr (''HTTP '' @ dec (status_code resp) @ '': ''
                           @ take 200 (body_text resp))),
                        (''status'', JNum (int (status_code resp))),
                        (''url'', JStr (take 100 url))]))"

definition consolidate_address ::
  "env \<Rightarrow> string \<Rightarrow> string \<Rightarrow> string \<Rightarrow> world \<Rightarrow> result \<times> world" where
  "consolidate_address ev destination original signature w =
     (let url = donate_url destination original signature;
          r = http_post ev (trace w) url
      in (consolidate_result ev url r, emit (Post original url r) w))"

text \<open>
  \<open>address_map = {a['address']: a for a in derived_addresses}\<close>: a later record
  replaces an earlier one with the same address.
\<close>

definition address_map :: "addr_info list \<Rightarrow> string \<Rightarrow> addr_info option" where
  "address_map derived = map_of (rev (map (\<lambda>a. (address a, a)) derived))"

definition consolidation_message :: "string \<Rightarrow> pystr" where
  "consolidation_message destination =
     S (''Assign accumulated Scavenger rights to: '' @ destination)"

text \<open>
  Lines 232 to 237: the error of a failure result, as a message. \<open>str()\<close> of a string is
  the string itself.
\<close>

definition error_msg_of :: "env \<Rightarrow> result \<Rightarrow> json" where
  "error_msg_of ev res =
     (let err = (case map_of res ''error'' of Some e \<Rightarrow> e | None \<Rightarrow> JStr ''Unknown error'');
          str = (\<lambda>j. case j of JStr s \<Rightarrow> JStr s | _ \<Rightarrow> JStr (str_json ev j))
      in case err of
           JObj d \<Rightarrow> (case map_of d ''message'' of Some m \<Rightarrow> m | None \<Rightarrow> str err)
         | _ \<Rightarrow> str err)"

text \<open>\<open>error_msg[:120]\<close> inside the \<open>print\<close> of line 240 needs a string or a list.\<close>

fun sliceable :: "json \<Rightarrow> bool" where
  "sliceable (JStr s) = True"
| "sliceable (JList l) = True"
| "sliceable j = False"

definition failure_entry :: "string \<Rightarrow> string \<Rightarrow> json" where
  "failure_entry original msg =
     JObj [(''address'', JStr original), (''success'', JBool False), (''error'', JStr msg)]"

text \<open>
  Lines 216 to 248, the \<open>try\<close> block for one registered address found in \<open>address_map\<close>.
  The state is \<open>(success_count, results, world)\<close>.
\<close>

definition consolidate_one ::
  "'w pylib \<Rightarrow> env \<Rightarrow> string \<Rightarrow> string \<Rightarrow> addr_info \<Rightarrow> nat \<times> json list \<times> world
     \<Rightarrow> nat \<times> json list \<times> world" where
  "consolidate_one lib ev destination original addr_info st =
     (case st of (cnt, results, w) \<Rightarrow>
        (case sign_cip30_message lib (consolidation_message destination)
                (payment_skey addr_info) (address_obj addr_info) of
           Inl e \<Rightarrow> (cnt, results @ [failure_entry original (str_exn ev e)], w)
         | Inr signature \<Rightarrow>
             (let w1 = emit (Sign (address addr_info)) w;
                  (res, w2) = consolidate_address ev destination original signature w1
              in if success res then
                   (Suc cnt,
                    results @ [JObj [(''address'', JStr original), (''success'', JBool True),
                                     (''data'', (case map_of res ''data'' of
                                                   Some d \<Rightarrow> d | None \<Rightarrow> JNull))]],
                    w2)
                 else
                   (let error_msg = error_msg_of ev res;
                        status = (case map_of res ''status'' of
                                    Some c \<Rightarrow> c | None \<Rightarrow> JStr ''unknown'')
                    in if sliceable error_msg then
                         (cnt,
                          results @ [JObj [(''address'', JStr original),
                                           (''success'', JBool False),
                                           (''error'', error_msg), (''status'', status)]],
                          w2)
                       else (cnt, results @ [failure_entry original (str_exn ev TypeError)],
                             w2)))))"

text \<open>The loop of lines 205 to 253 over \<open>enumerate(registered_addresses)\<close>.\<close>

fun consolidate_loop ::
  "'w pylib \<Rightarrow> env \<Rightarrow> string \<Rightarrow> (string \<Rightarrow> addr_info option) \<Rightarrow> nat \<Rightarrow> nat \<Rightarrow> string list
     \<Rightarrow> nat \<times> json list \<times> world \<Rightarrow> nat \<times> json list \<times> world" where
  "consolidate_loop lib ev destination amap n i [] st = st"
| "consolidate_loop lib ev destination amap n i (original # rest) (cnt, results, w) =
     (case amap original of
        None \<Rightarrow>
          consolidate_loop lib ev destination amap n (Suc i) rest
            (cnt, results @ [failure_entry original ''Not in derived set''], w)
      | Some addr_info \<Rightarrow>
          (case consolidate_one lib ev destination original addr_info (cnt, results, w) of
             (cnt', results', w') \<Rightarrow>
               consolidate_loop lib ev destination amap n (Suc i) rest
                 (cnt', results', if Suc i < n then emit (Sleep 500) w' else w')))"

definition results_file :: string where
  "results_file = ''consolidation-results.json''"

definition summary :: "string \<Rightarrow> nat \<Rightarrow> nat \<Rightarrow> json list \<Rightarrow> json" where
  "summary destination n cnt results =
     JObj [(''destination'', JStr destination),
           (''total'', JNum (int n)),
           (''successful'', JNum (int cnt)),
           (''failed'', JNum (int n - int cnt)),
           (''results'', JList results)]"

definition consolidate_all ::
  "'w pylib \<Rightarrow> env \<Rightarrow> string \<Rightarrow> addr_info list \<Rightarrow> string list \<Rightarrow> world \<Rightarrow> nat \<times> world" where
  "consolidate_all lib ev destination derived registered w =
     (case consolidate_loop lib ev destination (address_map derived)
             (length registered) 0 registered (0, [], w) of
        (cnt, results, w') \<Rightarrow>
          (let doc = summary destination (length registered) cnt results;
               w'' = emit (WriteResults results_file doc) w'
           in (cnt, w''\<lparr>files := (files w'')\<lparr>consolidation_results := Some doc\<rparr>\<rparr>)))"

section \<open>The two programs\<close>

text \<open>
  \<open>str.strip()\<close>, \<open>str.split()\<close> and \<open>str.lower()\<close> on typed input, whose characters are
  the code points below 256; the white space among them is 9 to 13, 28 to 32, 133, 160.
\<close>

definition is_space :: "char \<Rightarrow> bool" where
  "is_space c = (let n = (of_char c :: nat)
                 in (9 \<le> n \<and> n \<le> 13) \<or> (28 \<le> n \<and> n \<le> 32) \<or> n = 133 \<or> n = 160)"

definition py_strip :: "string \<Rightarrow> string" where
  "py_strip s = rev (dropWhile is_space (rev (dropWhile is_space s)))"

fun split_from :: "string \<Rightarrow> string \<Rightarrow> string list" where
  "split_from cur [] = (if cur = [] then [] else [cur])"
| "split_from cur (c # cs) =
     (if is_space c then (if cur = [] then split_from [] cs else cur # split_from [] cs)
      else split_from (cur @ [c]) cs)"

definition py_split :: "string \<Rightarrow> string list" where
  "py_split s = split_from [] s"

definition lower_cp :: "nat \<Rightarrow> nat" where
  "lower_cp n = (if (65 \<le> n \<and> n \<le> 90) \<or> (192 \<le> n \<and> n \<le> 222 \<and> n \<noteq> 215)
                 then n + 32 else n)"

definition py_lower :: "string \<Rightarrow> pystr" where
  "py_lower s = map (\<lambda>c. lower_cp (of_char c)) s"

text \<open>
  \<open>int(s)\<close> on such a string: an optional sign, then decimal digits, single underscores
  allowed between digits; \<open>None\<close> is \<open>ValueError\<close>. (The limit on the number of digits
  of recent interpreters is not modelled.)
\<close>

definition digit_val :: "char \<Rightarrow> nat option" where
  "digit_val c = (let n = (of_char c :: nat)
                  in if 48 \<le> n \<and> n \<le> 57 then Some (n - 48) else None)"

fun parse_digits :: "bool \<Rightarrow> nat \<Rightarrow> string \<Rightarrow> nat option" where
  "parse_digits prev acc [] = (if prev then Some acc else None)"
| "parse_digits prev acc (c # cs) =
     (if c = CHR ''_'' then (if prev \<and> cs \<noteq> [] then parse_digits False acc cs else None)
      else (case digit_val c of
              None \<Rightarrow> None
            | Some d \<Rightarrow> parse_digits True (10 * acc + d) cs))"

definition py_int :: "string \<Rightarrow> int option" where
  "py_int s =
     (case py_strip s of
        [] \<Rightarrow> None
      | c # cs \<Rightarrow>
          if c = CHR ''-'' then map_option (\<lambda>n. - int n) (parse_digits False 0 cs)
          else if c = CHR ''+'' then map_option int (parse_digits False 0 cs)
          else map_option int (parse_digits False 0 (c # cs)))"

definition valid_word_count :: "nat \<Rightarrow> bool" where
  "valid_word_count n = (n \<in> set [12, 15, 18, 21, 24])"

text \<open>
  How \<open>main\<close> ends: a \<open>return\<close> after an error message, an exception that leaves \<open>main\<close>,
  an exception caught and printed by the \<open>except Exception\<close> of \<open>main\<close>, or the end of
  the \<open>try\<close> block.
\<close>

datatype abort =
    NotConfirmed
  | InvalidMnemonic nat
  | CountOutOfRange
  | NoRegisteredAddresses
  | InvalidDestination
  | FirstAddressMismatch

datatype outcome = Aborted abort | Uncaught error | Caught error | Completed

text \<open>
  The local variable \<open>mnemonic\<close> when \<open>main\<close> ends: never assigned, still bound to the
  phrase that was typed, or rebound to \<open>"0" * 1000\<close> and deleted by the \<open>finally\<close> block.
\<close>

datatype seed_var = Unread | Holding string | Cleared

record exit_state =
  outcome :: outcome
  mnemonic_var :: seed_var
  final :: world

definition load_registered_addresses :: "files \<Rightarrow> error + string list" where
  "load_registered_addresses fs =
     (case registrations_json fs of
        None \<Rightarrow> Inr []
      | Some Unparsable \<Rightarrow> Inl JSONDecodeError
      | Some (Parsed main_regs) \<Rightarrow>
          if list_all has_address main_regs
          then Inr (map (\<lambda>r. the (map_of r ''address'')) main_regs)
          else Inl (KeyError ''address''))"

text \<open>\<open>main\<close> of the consolidation program, with the two lines typed by the user.\<close>

definition consolidate_main ::
  "'w pylib \<Rightarrow> env \<Rightarrow> string \<Rightarrow> string \<Rightarrow> world \<Rightarrow> exit_state" where
  "consolidate_main lib ev destination_input mnemonic_input w =
     (case load_registered_addresses (files w) of
        Inl e \<Rightarrow> \<lparr>outcome = Uncaught e, mnemonic_var = Unread, final = w\<rparr>
      | Inr registered \<Rightarrow>
         (case registered of
            [] \<Rightarrow> \<lparr>outcome = Aborted NoRegisteredAddresses, mnemonic_var = Unread, final = w\<rparr>
          | first_registered # _ \<Rightarrow>
             (let destination = py_strip destination_input
              in if take 5 destination \<noteq> ''addr1''
                 then \<lparr>outcome = Aborted InvalidDestination, mnemonic_var = Unread, final = w\<rparr>
                 else
                  (let w1 = emit (Sleep 3000) w;
                       mnemonic = py_strip mnemonic_input;
                       word_count = length (py_split mnemonic)
                   in if \<not> valid_word_count word_count
                      then \<lparr>outcome = Aborted (InvalidMnemonic word_count),
                            mnemonic_var = Holding mnemonic, final = w1\<rparr>
                      else
                       (case derive_addresses_from_mnemonic lib mnemonic
                               (int (length registered)) of
                          Inl e \<Rightarrow> \<lparr>outcome = Caught e, mnemonic_var = Cleared, final = w1\<rparr>
                        | Inr derived \<Rightarrow>
                           (case derived of
                              [] \<Rightarrow> \<lparr>outcome = Caught IndexError, mnemonic_var = Cleared,
                                     final = w1\<rparr>
                            | first_derived # _ \<Rightarrow>
                               if address first_derived \<noteq> first_registered
                               then \<lparr>outcome = Aborted FirstAddressMismatch,
                                     mnemonic_var = Cleared, final = w1\<rparr>
                               else
                                (case consolidate_all lib ev destination derived registered w1 of
                                   (cnt, w2) \<Rightarrow>
                                     \<lparr>outcome = Completed, mnemonic_var = Cleared,
                                      final = w2\<rparr>)))))))"

definition old_file :: string where
  "old_file = ''registrations.json''"

definition new_file :: string where
  "new_file = ''registrations-new.json''"

text \<open>
  Lines 298 to 339 of the registration program: what is done with the list that
  \<open>register_all_addresses\<close> returned. \<open>Inl\<close> is an exception, which the caller catches.
\<close>

definition save_registrations :: "entry list \<Rightarrow> world \<Rightarrow> error option \<times> world" where
  "save_registrations registrations w =
     (if length registrations > 0 then
        (let w1 = (if registrations_partial (files w) \<noteq> None
                   then (emit (Remove temp_file) w)
                          \<lparr>files := (files w)\<lparr>registrations_partial := None\<rparr>\<rparr>
                   else w)
         in case registrations_json (files w1) of
              Some Unparsable \<Rightarrow> (Some JSONDecodeError, w1)
            | Some (Parsed old_registrations) \<Rightarrow>
                (let k = min 3 (min (length old_registrations) (length registrations))
                 in if list_all has_address (take k old_registrations)
                       \<and> list_all has_address (take k registrations)
                    then (None, (emit (WriteLedger new_file registrations) w1)
                            \<lparr>files := (files w1)\<lparr>registrations_new := Some (Parsed registrations)\<rparr>\<rparr>)
                    else (Some (KeyError ''address''), w1))
            | None \<Rightarrow>
                (None, (emit (WriteLedger old_file registrations) w1)
                   \<lparr>files := (files w1)\<lparr>registrations_json := Some (Parsed registrations)\<rparr>\<rparr>))
      else (None, w))"

text \<open>\<open>main\<close> of the registration program, with the three lines typed by the user.\<close>

definition register_main ::
  "'w pylib \<Rightarrow> env \<Rightarrow> string \<Rightarrow> string \<Rightarrow> string \<Rightarrow> world \<Rightarrow> exit_state" where
  "register_main lib ev confirm_input mnemonic_input count_input w =
     (if py_lower (py_strip confirm_input) \<noteq> S ''yes''
      then \<lparr>outcome = Aborted NotConfirmed, mnemonic_var = Unread, final = w\<rparr>
      else
       (let mnemonic = py_strip mnemonic_input;
            word_count = length (py_split mnemonic)
        in if \<not> valid_word_count word_count
           then \<lparr>outcome = Aborted (InvalidMnemonic word_count),
                 mnemonic_var = Holding mnemonic, final = w\<rparr>
           else
            (case (if py_strip count_input \<noteq> [] then py_int (py_strip count_input)
                   else Some 100) of
               None \<Rightarrow> \<lparr>outcome = Uncaught (ValueError (py_strip count_input)),
                         mnemonic_var = Holding mnemonic, final = w\<rparr>
             | Some count \<Rightarrow>
                if count < 1 \<or> count > 1000
                then \<lparr>outcome = Aborted CountOutOfRange,
                      mnemonic_var = Holding mnemonic, final = w\<rparr>
                else
                 (case derive_addresses_from_mnemonic lib mnemonic count of
                    Inl e \<Rightarrow> \<lparr>outcome = Caught e, mnemonic_var = Cleared, final = w\<rparr>
                  | Inr addresses \<Rightarrow>
                     (let w1 = emit (Get (API_BASE @ ''/TandC'')) w
                      in case get_message ev (trace w) of
                           Inl e \<Rightarrow> \<lparr>outcome = Caught e, mnemonic_var = Cleared, final = w1\<rparr>
                         | Inr message \<Rightarrow>
                            (case register_all_addresses lib ev addresses message w1 of
                               (Inl e, w2) \<Rightarrow>
                                 \<lparr>outcome = Caught e, mnemonic_var = Cleared, final = w2\<rparr>
                             | (Inr registrations, w2) \<Rightarrow>
                                (case save_registrations registrations w2 of
                                   (Some e, w3) \<Rightarrow>
                                     \<lparr>outcome = Caught e, mnemonic_var = Cleared, final = w3\<rparr>
                                 | (None, w3) \<Rightarrow>
                                     \<lparr>outcome = Completed, mnemonic_var = Cleared,
                                      final = w3\<rparr>)))))))"

section \<open>Reading a trace\<close>

fun is_sign :: "event \<Rightarrow> bool" where
  "is_sign (Sign a) = True"
| "is_sign e = False"

fun is_network :: "event \<Rightarrow> bool" where
  "is_network (Post a u r) = True"
| "is_network (Get u) = True"
| "is_network e = False"

fun is_sleep :: "event \<Rightarrow> bool" where
  "is_sleep (Sleep d) = True"
| "is_sleep e = False"

text \<open>The signing operations and remote calls made for one address.\<close>

fun about :: "string \<Rightarrow> event \<Rightarrow> bool" where
  "about a (Sign b) = (a = b)"
| "about a (Post b u r) = (a = b)"
| "about a e = False"

text \<open>The events of a run that started in \<open>w\<close> and ended in \<open>w'\<close>.\<close>

definition since :: "world \<Rightarrow> world \<Rightarrow> event list" where
  "since w w' = drop (length (trace w)) (trace w')"

text \<open>A trace without the URLs and bodies: who was signed for, who was posted for and
  with which status (\<open>0\<close> when the request raised), which file was written.\<close>

datatype brief =
    Signed string
  | Posted string nat
  | Fetched
  | Slept nat
  | Wrote string
  | Removed string

fun brief_of :: "event \<Rightarrow> brief" where
  "brief_of (Sign a) = Signed a"
| "brief_of (Post a u (Inr r)) = Posted a (status_code r)"
| "brief_of (Post a u (Inl e)) = Posted a 0"
| "brief_of (Get u) = Fetched"
| "brief_of (Sleep d) = Slept d"
| "brief_of (WriteLedger f l) = Wrote f"
| "brief_of (WriteResults f j) = Wrote f"
| "brief_of (Remove f) = Removed f"

fun is_write :: "event \<Rightarrow> bool" where
  "is_write (WriteLedger f l) = True"
| "is_write (WriteResults f j) = True"
| "is_write e = False"

text \<open>
  \<open>delay_first d evs\<close>: in \<open>evs\<close>, no signing operation or network call happens before a
  \<open>Sleep d\<close>. \<open>paced d evs\<close>: this holds after every POST of \<open>evs\<close>, whatever its answer.
\<close>

fun delay_first :: "nat \<Rightarrow> event list \<Rightarrow> bool" where
  "delay_first d [] = True"
| "delay_first d (e # es) =
     (if e = Sleep d then True
      else if is_sign e \<or> is_network e then False
      else delay_first d es)"

fun paced :: "nat \<Rightarrow> event list \<Rightarrow> bool" where
  "paced d [] = True"
| "paced d (Post a u r # es) = (delay_first d es \<and> paced d es)"
| "paced d (e # es) = paced d es"

text \<open>
  \<open>persisted ev evs\<close>: every registration POST of \<open>evs\<close> whose result is a success is
  followed at once by a write of the partial ledger whose last entry is for that address.
\<close>

fun ledger_written_for :: "string \<Rightarrow> event list \<Rightarrow> bool" where
  "ledger_written_for a (WriteLedger f l # es) =
     (f = temp_file \<and> l \<noteq> [] \<and> map_of (last l) ''address'' = Some a)"
| "ledger_written_for a es = False"

fun persisted :: "env \<Rightarrow> event list \<Rightarrow> bool" where
  "persisted ev [] = True"
| "persisted ev (Post a u r # es) =
     ((success (register_result ev r) \<longrightarrow> ledger_written_for a es) \<and> persisted ev es)"
| "persisted ev (e # es) = persisted ev es"

text \<open>
  What leaves the process. \<open>signature_of\<close> is the envelope of a record for a message, if
  signing succeeds. A registration event is public when its URL is made of the address, the
  envelope and the public key of one of the records, and when every entry it writes either
  was loaded from the ledger or is made of those three strings. A consolidation event is
  public when its URL is made of the destination, the address and the envelope of one of
  the records, and when the summary it writes has result entries with the listed keys.
\<close>

definition signature_of :: "'w pylib \<Rightarrow> pystr \<Rightarrow> addr_info \<Rightarrow> string option" where
  "signature_of lib message x =
     (case sign_cip30_message lib message (payment_skey x) (address_obj x) of
        Inl e \<Rightarrow> None
      | Inr sg \<Rightarrow> Some sg)"

definition public_entry :: "'w pylib \<Rightarrow> pystr \<Rightarrow> addr_info list \<Rightarrow> entry \<Rightarrow> bool" where
  "public_entry lib message addresses e =
     list_ex (\<lambda>x. case signature_of lib message x of
                     None \<Rightarrow> False
                   | Some sg \<Rightarrow> e = reg_entry (address x) sg (hex (payment_vkey x)))
       addresses"

fun registration_public ::
  "'w pylib \<Rightarrow> pystr \<Rightarrow> addr_info list \<Rightarrow> entry list \<Rightarrow> event \<Rightarrow> bool" where
  "registration_public lib message addresses loaded (Sign a) = True"
| "registration_public lib message addresses loaded (Sleep d) = True"
| "registration_public lib message addresses loaded (Post a u r) =
     list_ex (\<lambda>x. a = address x
                \<and> (case signature_of lib message x of
                      None \<Rightarrow> False
                    | Some sg \<Rightarrow> u = register_url a sg (hex (payment_vkey x))))
       addresses"
| "registration_public lib message addresses loaded (WriteLedger f l) =
     (f = temp_file
      \<and> list_all (\<lambda>e. e \<in> set loaded \<or> public_entry lib message addresses e) l)"
| "registration_public lib message addresses loaded e = False"

fun result_keys :: "json \<Rightarrow> string list" where
  "result_keys (JObj kvs) = map fst kvs"
| "result_keys j = []"

definition spec_result_keys :: "string list set" where
  "spec_result_keys =
     {[''address'', ''success'', ''error''], [''address'', ''success'', ''error'', ''status'']}"

definition code_result_keys :: "string list set" where
  "code_result_keys = insert [''address'', ''success'', ''data''] spec_result_keys"

fun summary_results :: "json \<Rightarrow> json list" where
  "summary_results (JObj kvs) =
     (case map_of kvs ''results'' of Some (JList rs) \<Rightarrow> rs | _ \<Rightarrow> [])"
| "summary_results j = []"

fun consolidation_public ::
  "'w pylib \<Rightarrow> string \<Rightarrow> addr_info list \<Rightarrow> event \<Rightarrow> bool" where
  "consolidation_public lib destination derived (Sign a) = True"
| "consolidation_public lib destination derived (Sleep d) = True"
| "consolidation_public lib destination derived (Post a u r) =
     list_ex (\<lambda>x. a = address x
                \<and> (case signature_of lib (consolidation_message destination) x of
                      None \<Rightarrow> False
                    | Some sg \<Rightarrow> u = donate_url destination a sg))
       derived"
| "consolidation_public lib destination derived (WriteResults f doc) =
     (f = results_file
      \<and> result_keys doc = [''destination'', ''total'', ''successful'', ''failed'', ''results'']
      \<and> list_all (\<lambda>r. result_keys r \<in> code_result_keys) (summary_results doc))"
| "consolidation_public lib destination derived e = False"

section \<open>The envelope, in the words of the specification\<close>

definition spec_protected_header :: "'w pylib \<Rightarrow> addr_obj \<Rightarrow> bytes" where
  "spec_protected_header lib addr =
     cbor_dumps lib (CMap [(CInt 1, CInt (- 8)),
                           (CInt 4, CBytes (to_primitive lib addr)),
                           (CText ''address'', CBytes (to_primitive lib addr))])"

definition spec_signed_bytes :: "'w pylib \<Rightarrow> addr_obj \<Rightarrow> bytes \<Rightarrow> bytes" where
  "spec_signed_bytes lib addr payload =
     cbor_dumps lib (CArray [CText ''Signature1'', CBytes (spec_protected_header lib addr),
                             CBytes [], CBytes payload])"

definition spec_envelope :: "'w pylib \<Rightarrow> bytes \<Rightarrow> bytes \<Rightarrow> addr_obj \<Rightarrow> string" where
  "spec_envelope lib payload skey addr =
     hex (cbor_dumps lib
            (CArray [CBytes (spec_protected_header lib addr),
                     CMap [(CText ''hashed'', CBool False)],
                     CBytes payload,
                     CBytes (sign lib skey (spec_signed_bytes lib addr payload))]))"

section \<open>Stand-ins for the libraries and the service\<close>

text \<open>
  To run the model on concrete inputs the library functions need values. \<open>rfc_dumps\<close>
  encodes the values used here as RFC 8949 prescribes (definite lengths, shortest heads);
  the key and address functions of \<open>demo_lib\<close> are toy functions, not cryptography.
\<close>

fun be :: "nat \<Rightarrow> nat \<Rightarrow> bytes" where
  "be 0 n = []"
| "be (Suc k) n = be k (n div 256) @ [of_nat (n mod 256)]"

definition head :: "nat \<Rightarrow> nat \<Rightarrow> bytes" where
  "head major n =
     (if n < 24 then [of_nat (32 * major + n)]
      else if n < 256 then of_nat (32 * major + 24) # be 1 n
      else if n < 65536 then of_nat (32 * major + 25) # be 2 n
      else if n < 4294967296 then of_nat (32 * major + 26) # be 4 n
      else of_nat (32 * major + 27) # be 8 n)"

fun rfc_dumps :: "cbor \<Rightarrow> bytes" where
  "rfc_dumps (CInt i) = (if 0 \<le> i then head 0 (nat i) else head 1 (nat (- i - 1)))"
| "rfc_dumps (CBytes b) = head 2 (length b) @ b"
| "rfc_dumps (CText s) =
     (let u = concat (map (\<lambda>c. utf8_char (of_char c)) s) in head 3 (length u) @ u)"
| "rfc_dumps (CBool b) = [if b then 0xf5 else 0xf4]"
| "rfc_dumps (CArray xs) = head 4 (length xs) @ concat (map rfc_dumps xs)"
| "rfc_dumps (CMap kvs) =
     head 5 (length kvs) @ concat (map (\<lambda>(k, v). rfc_dumps k @ rfc_dumps v) kvs)"

definition demo_lib :: "string pylib" where
  "demo_lib =
     \<lparr>from_mnemonic = (\<lambda>m. if m = [] then Inl (ValueError ''mnemonic'') else Inr m),
      derive_from_path = (\<lambda>w p. w @ p),
      xprivate_key = (\<lambda>w. rev (map (\<lambda>c. of_nat (of_char c)) w)),
      from_signing_key = (\<lambda>k. map (\<lambda>b. b + 1) k),
      key_hash = take 2,
      address_str = (\<lambda>a. ''addr1'' @ hex (payment_part a)),
      to_primitive = (\<lambda>a. 1 # payment_part a @ staking_part a),
      sign = (\<lambda>k m. take 2 k @ take 2 m),
      cbor_dumps = rfc_dumps\<rparr>"

text \<open>
  A service that answers the first POST of a run with the status \<open>first\<close> and every
  later one with \<open>200\<close>, without a JSON body.
\<close>

definition reply :: "nat \<Rightarrow> response" where
  "reply code = \<lparr>status_code = code, retry_after = None, json_body = None, body_text = []\<rparr>"

definition server :: "nat \<Rightarrow> env" where
  "server first =
     \<lparr>http_post = (\<lambda>h u. Inr (reply (if list_ex is_network h then 200 else first))),
      get_message = (\<lambda>h. Inr (S ''terms'')),
      str_exn = (\<lambda>e. ''error''),
      str_json = (\<lambda>j. ''json'')\<rparr>"

definition no_files :: files where
  "no_files = \<lparr>registrations_partial = None, registrations_json = None,
               registrations_new = None, consolidation_results = None\<rparr>"

definition start :: world where
  "start = \<lparr>trace = [], files = no_files\<rparr>"

text \<open>
  A phrase of twelve words, and the first two records that \<open>demo_lib\<close> derives from it,
  with the addresses \<open>addr13130\<close> and \<open>addr13230\<close>.
\<close>

definition phrase :: string where
  "phrase = ''a b c d e f g h i j k l''"

definition rec0 :: addr_info where
  "rec0 = \<lparr>index = 0, address = ''addr13130'',
           address_obj = \<lparr>payment_part = [49, 48], staking_part = [49, 48], network = MAINNET\<rparr>,
           payment_skey = [48, 47, 48, 47, 109, 39, 48, 47, 39, 53, 49, 56, 49, 47, 39, 50,
                           53, 56, 49, 47, 109, 108, 32, 107, 32, 106, 32, 105, 32, 104, 32, 103],
           payment_vkey = [49, 48, 49, 48, 110, 40, 49, 48, 40, 54, 50, 57, 50, 48, 40, 51,
                           54, 57, 50, 48, 110, 109, 33, 108, 33, 107, 33, 106, 33, 105, 33, 104]\<rparr>"

definition rec1 :: addr_info where
  "rec1 = \<lparr>index = 1, address = ''addr13230'',
           address_obj = \<lparr>payment_part = [50, 48], staking_part = [49, 48], network = MAINNET\<rparr>,
           payment_skey = [49, 47, 48, 47, 109, 39, 48, 47, 39, 53, 49, 56, 49, 47, 39, 50,
                           53, 56, 49, 47, 109, 108, 32, 107, 32, 106, 32, 105, 32, 104, 32, 103],
           payment_vkey = [50, 48, 49, 48, 110, 40, 49, 48, 40, 54, 50, 57, 50, 48, 40, 51,
                           54, 57, 50, 48, 110, 109, 33, 108, 33, 107, 33, 106, 33, 105, 33, 104]\<rparr>"

text \<open>A world in which \<open>registrations.json\<close> lists the given addresses.\<close>

definition registered_world :: "string list \<Rightarrow> world" where
  "registered_world addrs =
     \<lparr>trace = [],
      files = no_files\<lparr>registrations_json := Some (Parsed (map (\<lambda>a. [(''address'', a)]) addrs))\<rparr>\<rparr>"

text \<open>
  Runs of the two batches with \<open>demo_lib\<close>: a world whose partial ledger holds the given
  entries, a consolidation of one address and the same consolidation run again in the
  world the first one left, and the batches over two addresses with a service whose first
  answer has the given status.
\<close>

definition ledger_world :: "entry list \<Rightarrow> world" where
  "ledger_world es = \<lparr>trace = [], files = no_files\<lparr>registrations_partial := Some (Parsed es)\<rparr>\<rparr>"

definition first_consolidation :: "nat \<times> world" where
  "first_consolidation =
     consolidate_all demo_lib (server 200) ''addr1dest'' [rec0] [''addr13130''] start"

definition second_consolidation :: "nat \<times> world" where
  "second_consolidation =
     consolidate_all demo_lib (server 200) ''addr1dest'' [rec0] [''addr13130'']
       (snd first_consolidation)"

definition consolidation_answering :: "nat \<Rightarrow> nat \<times> world" where
  "consolidation_answering code =
     consolidate_all demo_lib (server code) ''addr1dest'' [rec0, rec1]
       [''addr13130'', ''addr13230''] start"

definition registration_answering :: "nat \<Rightarrow> (error + entry list) \<times> world" where
  "registration_answering code =
     register_all_addresses demo_lib (server code) [rec0, rec1] (S ''terms'') start"

definition resumed_registration :: "(error + entry list) \<times> world" where
  "resumed_registration =
     register_all_addresses demo_lib (server 200) [rec0, rec1] (S ''terms'')
       (ledger_world [reg_entry ''addr13130'' ''84'' ''31''])"

text \<open>An answer with the status 429.\<close>

definition rate_limited :: "error + response \<Rightarrow> bool" where
  "rate_limited r = (case r of Inl e \<Rightarrow> False | Inr resp \<Rightarrow> status_code resp = 429)"

section \<open>Derivation is stable under extension\<close>

text \<open>
  Claim C6. For positive counts \<open>m \<le> n\<close>, the first \<open>m\<close> records derived for count \<open>n\<close> are
  the records derived for count \<open>m\<close>: a record depends on the seed and its index only.
  When the library rejects the seed, it does so for both counts.
\<close>

theorem derive_prefix_stable:
  assumes "0 < m" and "m \<le> n"
  shows "case derive_addresses_from_mnemonic lib seed n of
           Inl e \<Rightarrow> derive_addresses_from_mnemonic lib seed m = Inl e
         | Inr records \<Rightarrow>
             derive_addresses_from_mnemonic lib seed m = Inr (take (nat m) records)"
proof -
  have "take (nat m) [0..<nat n] = [0..<nat m]"
    using assms by simp
  then show ?thesis
    by (simp add: derive_addresses_from_mnemonic_def Let_def take_map split: sum.splits)
qed

theorem derive_prefix_stable_witness:
  "(0::int) < 2 \<and> (2::int) \<le> 3
   \<and> (case derive_addresses_from_mnemonic demo_lib ''seed'' 3 of
         Inl e \<Rightarrow> derive_addresses_from_mnemonic demo_lib ''seed'' 2 = Inl e
       | Inr records \<Rightarrow>
           derive_addresses_from_mnemonic demo_lib ''seed'' 2 = Inr (take (nat 2) records))"
  using derive_prefix_stable [of 2 3 demo_lib "''seed''"] by simp

section \<open>The signature envelope\<close>

text \<open>
  Claim C1, as the specification states it, fails on a message that has no UTF-8
  encoding: \<open>message.encode('utf-8')\<close> raises on a lone surrogate, before anything is
  signed.
\<close>

theorem lone_surrogate_raises:
  "sign_cip30_message demo_lib [104, 0xD800] [1, 2, 3]
      \<lparr>payment_part = [0xaa, 0xbb], staking_part = [0xcc], network = MAINNET\<rparr>
     = Inl UnicodeEncodeError"
  by (simp add: sign_cip30_message_def encode_utf8_def is_surrogate_def Let_def)

text \<open>
  Claim C1, amended. For every message without a lone surrogate, every signing key and
  every address, \<open>sign_cip30_message\<close> returns the hexadecimal form of the serialized array
  \<open>[protected, {"hashed": false}, payload, signature]\<close>, where \<open>protected\<close> is the serialized
  map \<open>{1: -8, 4: addressBytes, "address": addressBytes}\<close>, \<open>payload\<close> is the UTF-8 encoding
  of the message and \<open>signature\<close> is the signature, by the given key, of the serialized
  array \<open>["Signature1", protected, empty byte string, payload]\<close>.
\<close>

theorem envelope_of_encodable_message:
  assumes "\<not> list_ex is_surrogate message"
  shows "sign_cip30_message lib message skey addr
           = Inr (spec_envelope lib (concat (map utf8_char message)) skey addr)"
  using assms
  by (simp add: sign_cip30_message_def encode_utf8_def spec_envelope_def
        spec_signed_bytes_def spec_protected_header_def Let_def)

theorem envelope_of_encodable_message_witness:
  "\<not> list_ex is_surrogate (S ''hi'')
   \<and> sign_cip30_message demo_lib (S ''hi'') (payment_skey rec0) (address_obj rec0)
       = Inr ''845818a30127044501313031306761646472657373450131303130a166686173686564f442686944302f846a''"
proof -
  have 1: "\<not> list_ex is_surrogate (S ''hi'')"
    by (simp add: S_def is_surrogate_def)
  have 2: "concat (map utf8_char (S ''hi'')) = [104, 105]"
    by (simp add: S_def utf8_char_def)
  have 3: "spec_envelope demo_lib [104, 105] (payment_skey rec0) (address_obj rec0)
     = ''845818a30127044501313031306761646472657373450131303130a166686173686564f442686944302f846a''"
    by (simp add: spec_envelope_def spec_signed_bytes_def spec_protected_header_def
          demo_lib_def rec0_def head_def utf8_char_def hex_def hexdigit_def Let_def)
  from envelope_of_encodable_message [OF 1, of demo_lib "payment_skey rec0" "address_obj rec0"]
  show ?thesis using 1 2 3 by simp
qed


section \<open>The ledger of the registration batch\<close>

text \<open>
  Claim C10. When \<open>registrations-partial.json\<close> exists and is not JSON, and there is at
  least one address to register, \<open>register_all_addresses\<close> ends with the \<open>NameError\<close> of
  the unbound \<open>registered_addrs\<close>, having signed nothing, sent nothing and written nothing:
  the world is as it was when the function was called.
\<close>

theorem unparsable_ledger_aborts:
  assumes "registrations_partial (files w) = Some Unparsable" and "addresses \<noteq> []"
  shows "register_all_addresses lib ev addresses message w
           = (Inl (NameError ''registered_addrs''), w)"
  using assms
  by (cases addresses) (simp_all add: register_all_addresses_def load_partial_def)

theorem unparsable_ledger_aborts_witness:
  "registrations_partial
       (files (start\<lparr>files := no_files\<lparr>registrations_partial := Some Unparsable\<rparr>\<rparr>))
     = Some Unparsable
   \<and> [rec0] \<noteq> []
   \<and> register_all_addresses demo_lib (server 200) [rec0] (S ''terms'')
         (start\<lparr>files := no_files\<lparr>registrations_partial := Some Unparsable\<rparr>\<rparr>)
       = (Inl (NameError ''registered_addrs''),
          start\<lparr>files := no_files\<lparr>registrations_partial := Some Unparsable\<rparr>\<rparr>)"
  using unparsable_ledger_aborts
          [of "start\<lparr>files := no_files\<lparr>registrations_partial := Some Unparsable\<rparr>\<rparr>"
              "[rec0]" demo_lib "server 200" "S ''terms''"]
  by simp

section \<open>The first-address check of the consolidation program\<close>

text \<open>
  Claim C2. Whenever \<open>registrations.json\<close> lists at least one address and the first record
  derived from the typed phrase has another address than the first one listed, the
  consolidation program ends with a \<open>return\<close> after an error message, having made no
  signing operation and no network call and having written no file. When the destination
  and the word count pass their own checks, the error is the one of the first-address
  check.
\<close>

theorem mismatch_guard:
  assumes "load_registered_addresses (files w) = Inr (first_registered # others)"
    and "derive_addresses_from_mnemonic lib (py_strip mnemonic_input)
           (int (length (first_registered # others))) = Inr (first_derived # others_derived)"
    and "address first_derived \<noteq> first_registered"
  shows "let x = consolidate_main lib ev destination_input mnemonic_input w
         in (\<exists>reason. outcome x = Aborted reason)
            \<and> filter is_sign (trace (final x)) = filter is_sign (trace w)
            \<and> filter is_network (trace (final x)) = filter is_network (trace w)
            \<and> files (final x) = files w
            \<and> (take 5 (py_strip destination_input) = ''addr1''
                 \<and> valid_word_count (length (py_split (py_strip mnemonic_input)))
                \<longrightarrow> outcome x = Aborted FirstAddressMismatch)"
  using assms
  by (simp add: consolidate_main_def Let_def emit_def)

theorem mismatch_guard_witness:
  "load_registered_addresses (files (registered_world [''addr1other''])) = Inr [''addr1other'']
   \<and> derive_addresses_from_mnemonic demo_lib (py_strip phrase) (int (length [''addr1other'']))
       = Inr [rec0]
   \<and> address rec0 \<noteq> ''addr1other''
   \<and> outcome (consolidate_main demo_lib (server 200) ''addr1dest'' phrase
                 (registered_world [''addr1other''])) = Aborted FirstAddressMismatch
   \<and> trace (final (consolidate_main demo_lib (server 200) ''addr1dest'' phrase
                 (registered_world [''addr1other'']))) = [Sleep 3000]"
proof -
  have 1: "load_registered_addresses (files (registered_world [''addr1other'']))
             = Inr [''addr1other'']"
    by (simp add: load_registered_addresses_def registered_world_def no_files_def
          has_address_def)
  have s: "py_strip phrase = phrase"
    by (simp add: py_strip_def phrase_def is_space_def)
  have 2: "derive_addresses_from_mnemonic demo_lib (py_strip phrase)
             (int (length [''addr1other''])) = Inr [rec0]"
    unfolding s
    by (simp add: derive_addresses_from_mnemonic_def derive_one_def demo_lib_def phrase_def
          Let_def account_path_def NETWORK_def hex_def hexdigit_def rec0_def)
  have 3: "address rec0 \<noteq> ''addr1other''"
    by (simp add: rec0_def)
  have 4: "take 5 (py_strip ''addr1dest'') = ''addr1''"
    by (simp add: py_strip_def is_space_def)
  have 5: "valid_word_count (length (py_split (py_strip phrase)))"
    unfolding s by (simp add: py_split_def phrase_def is_space_def valid_word_count_def)
  have 6: "trace (final (consolidate_main demo_lib (server 200) ''addr1dest'' phrase
                 (registered_world [''addr1other'']))) = [Sleep 3000]"
    using 1 2 3 4 5
    by (simp add: consolidate_main_def Let_def emit_def registered_world_def)
  note g = mismatch_guard [of "registered_world [''addr1other'']" "''addr1other''" "[]"
         demo_lib phrase rec0 "[]" "server 200" "''addr1dest''", OF 1 2 3, unfolded Let_def]
  from g 4 5 have
    "outcome (consolidate_main demo_lib (server 200) ''addr1dest'' phrase
                 (registered_world [''addr1other''])) = Aborted FirstAddressMismatch"
    by blast
  with 1 2 3 6 show ?thesis by blast
qed

section \<open>The consolidation batch\<close>

lemma consolidate_one_appends:
  assumes "consolidate_one lib ev d orig ai (cnt, results, w) = (cnt', results', w')"
  shows "\<exists>rest. results' = results @ [JObj ((''address'', JStr orig) # rest)]"
  using assms
  by (auto simp: consolidate_one_def failure_entry_def Let_def
           split: sum.splits prod.splits if_splits)

lemma consolidate_loop_results:
  assumes "consolidate_loop lib ev d amap n i rest (cnt, results, w) = (cnt', results', w')"
  shows "\<exists>new. results' = results @ new \<and> length new = length rest
           \<and> (\<forall>k<length rest.
                 (\<exists>kvs. new ! k = JObj ((''address'', JStr (rest ! k)) # kvs))
                 \<and> (amap (rest ! k) = None
                      \<longrightarrow> new ! k = failure_entry (rest ! k) ''Not in derived set''))"
  using assms
proof (induction rest arbitrary: i cnt results w)
  case Nil
  then show ?case by simp
next
  case (Cons a rest)
  show ?case
  proof (cases "amap a")
    case None
    with Cons.prems have
      "consolidate_loop lib ev d amap n (Suc i) rest
         (cnt, results @ [failure_entry a ''Not in derived set''], w) = (cnt', results', w')"
      by simp
    from Cons.IH [OF this] obtain new where
      n: "results' = (results @ [failure_entry a ''Not in derived set'']) @ new"
         "length new = length rest"
         "\<forall>k<length rest.
            (\<exists>kvs. new ! k = JObj ((''address'', JStr (rest ! k)) # kvs))
            \<and> (amap (rest ! k) = None
                 \<longrightarrow> new ! k = failure_entry (rest ! k) ''Not in derived set'')"
      by blast
    show ?thesis
      using n
      by (intro exI [of _ "failure_entry a ''Not in derived set'' # new"])
         (auto simp: nth_Cons failure_entry_def split: nat.splits)
  next
    case (Some ai)
    obtain c1 r1 w1 where one: "consolidate_one lib ev d a ai (cnt, results, w) = (c1, r1, w1)"
      by (cases "consolidate_one lib ev d a ai (cnt, results, w)") auto
    from consolidate_one_appends [OF one] obtain fs where
      r1: "r1 = results @ [JObj ((''address'', JStr a) # fs)]" by blast
    from Cons.prems Some one have
      "consolidate_loop lib ev d amap n (Suc i) rest
         (c1, r1, if Suc i < n then emit (Sleep 500) w1 else w1) = (cnt', results', w')"
      by simp
    from Cons.IH [OF this] obtain new where
      n: "results' = r1 @ new"
         "length new = length rest"
         "\<forall>k<length rest.
            (\<exists>kvs. new ! k = JObj ((''address'', JStr (rest ! k)) # kvs))
            \<and> (amap (rest ! k) = None
                 \<longrightarrow> new ! k = failure_entry (rest ! k) ''Not in derived set'')"
      by blast
    show ?thesis
      using n r1 Some
      by (intro exI [of _ "JObj ((''address'', JStr a) # fs) # new"])
         (auto simp: nth_Cons split: nat.splits)
  qed
qed

lemma address_map_None: "address_map derived a = None \<longleftrightarrow> a \<notin> address ` set derived"
  by (simp add: address_map_def map_of_eq_None_iff image_image)

text \<open>
  Claim C9. In every consolidation run each registered address gets one result entry, at
  its own position, and the run ends by writing the summary; an address for which no
  record was derived gets the failure entry with the error \<open>Not in derived set\<close>, and the
  addresses after it are processed as usual.
\<close>

theorem missing_record_fails_softly:
  assumes "consolidate_all lib ev destination derived registered w = (cnt, w')"
  shows "\<exists>results.
           consolidation_results (files w')
             = Some (summary destination (length registered) cnt results)
           \<and> length results = length registered
           \<and> (\<forall>k<length registered.
                 (\<exists>kvs. results ! k = JObj ((''address'', JStr (registered ! k)) # kvs))
                 \<and> (registered ! k \<notin> address ` set derived
                      \<longrightarrow> results ! k = failure_entry (registered ! k) ''Not in derived set''))"
proof -
  obtain c rs w1 where
    loop: "consolidate_loop lib ev destination (address_map derived) (length registered) 0
             registered (0, [], w) = (c, rs, w1)"
    by (cases "consolidate_loop lib ev destination (address_map derived) (length registered) 0
             registered (0, [], w)") auto
  from assms loop have c: "cnt = c"
    and f: "consolidation_results (files w')
              = Some (summary destination (length registered) c rs)"
    by (auto simp: consolidate_all_def Let_def emit_def)
  from consolidate_loop_results [OF loop] show ?thesis
    using c f by (auto simp: address_map_None)
qed

theorem missing_record_fails_softly_witness:
  "consolidate_all demo_lib (server 200) ''addr1dest'' [rec0] [''addr1missing'', ''addr13130'']
       start
     = (fst (consolidate_all demo_lib (server 200) ''addr1dest'' [rec0]
               [''addr1missing'', ''addr13130''] start),
        snd (consolidate_all demo_lib (server 200) ''addr1dest'' [rec0]
               [''addr1missing'', ''addr13130''] start))
   \<and> ''addr1missing'' \<notin> address ` set [rec0]
   \<and> summary_results (the (consolidation_results (files (snd
         (consolidate_all demo_lib (server 200) ''addr1dest'' [rec0]
            [''addr1missing'', ''addr13130''] start))))) ! 0
       = failure_entry ''addr1missing'' ''Not in derived set''
   \<and> length (summary_results (the (consolidation_results (files (snd
         (consolidate_all demo_lib (server 200) ''addr1dest'' [rec0]
            [''addr1missing'', ''addr13130''] start)))))) = 2"
proof -
  define R where
    "R = consolidate_all demo_lib (server 200) ''addr1dest'' [rec0]
           [''addr1missing'', ''addr13130''] start"
  have m: "''addr1missing'' \<notin> address ` set [rec0]"
    by (simp add: rec0_def)
  have "R = (fst R, snd R)" by simp
  from missing_record_fails_softly [OF this [unfolded R_def]]
  obtain results where
    r: "consolidation_results (files (snd R))
          = Some (summary ''addr1dest'' (length [''addr1missing'', ''addr13130'']) (fst R)
                    results)"
      "length results = length [''addr1missing'', ''addr13130'']"
      "\<forall>k<length [''addr1missing'', ''addr13130''].
         (\<exists>kvs. results ! k
             = JObj ((''address'', JStr ([''addr1missing'', ''addr13130''] ! k)) # kvs))
         \<and> ([''addr1missing'', ''addr13130''] ! k \<notin> address ` set [rec0]
              \<longrightarrow> results ! k
                    = failure_entry ([''addr1missing'', ''addr13130''] ! k)
                        ''Not in derived set'')"
    unfolding R_def [symmetric] by blast
  from r(3) have
    "[''addr1missing'', ''addr13130''] ! 0 \<notin> address ` set [rec0]
       \<longrightarrow> results ! 0 = failure_entry ([''addr1missing'', ''addr13130''] ! 0)
                            ''Not in derived set''"
    by simp
  with m have "results ! 0 = failure_entry ''addr1missing'' ''Not in derived set''"
    by simp
  then have "summary_results (the (consolidation_results (files (snd R)))) ! 0
               = failure_entry ''addr1missing'' ''Not in derived set''
             \<and> length (summary_results (the (consolidation_results (files (snd R))))) = 2"
    using r(1,2) by (simp add: summary_def)
  then show ?thesis
    using m unfolding R_def by simp
qed

section \<open>Traces of the batch loops\<close>

lemma since_append: "trace w' = trace w @ evs \<Longrightarrow> since w w' = evs"
  by (simp add: since_def)

text \<open>What the \<open>try\<close> block of the registration loop does, case by case.\<close>

lemma register_one_cases:
  assumes "register_one lib ev message x (regs, ra, w) = (regs', ra', w')"
  obtains
    (unsigned) "signature_of lib message x = None" "regs' = regs" "ra' = ra" "w' = w"
  | (refused) sg r where "signature_of lib message x = Some sg"
      "\<not> success (register_result ev r)" "regs' = regs" "ra' = ra"
      "trace w' = trace w @ [Sign (address x),
          Post (address x) (register_url (address x) sg (hex (payment_vkey x))) r]"
      "files w' = files w"
  | (recorded) sg r where "signature_of lib message x = Some sg"
      "success (register_result ev r)"
      "regs' = regs @ [reg_entry (address x) sg (hex (payment_vkey x))]"
      "ra' = insert (address x) ra"
      "trace w' = trace w @ [Sign (address x),
          Post (address x) (register_url (address x) sg (hex (payment_vkey x))) r,
          WriteLedger temp_file regs']"
      "files w' = (files w)\<lparr>registrations_partial := Some (Parsed regs')\<rparr>"
  using assms
  by (auto simp: register_one_def register_address_def signature_of_def emit_def Let_def
           split: sum.splits prod.splits if_splits)

lemma register_loop_unbound:
  "register_loop lib ev message n i rest (regs, None, w) = (res, w') \<Longrightarrow> w' = w"
  by (cases rest) auto

lemma consolidate_one_cases:
  assumes "consolidate_one lib ev d orig x (cnt, results, w) = (cnt', results', w')"
  obtains
    (unsigned) entry where "signature_of lib (consolidation_message d) x = None"
      "cnt' = cnt" "w' = w" "results' = results @ [entry]"
      "result_keys entry \<in> code_result_keys"
  | (posted) sg r entry where "signature_of lib (consolidation_message d) x = Some sg"
      "cnt' \<le> Suc cnt" "results' = results @ [entry]"
      "result_keys entry \<in> code_result_keys"
      "trace w' = trace w @ [Sign (address x), Post orig (donate_url d orig sg) r]"
      "files w' = files w"
  using assms
  by (auto simp: consolidate_one_def consolidate_address_def signature_of_def emit_def Let_def
                 failure_entry_def code_result_keys_def spec_result_keys_def
           split: sum.splits prod.splits if_splits)

text \<open>Evaluating the runs of \<open>demo_lib\<close>, with the envelope left folded.\<close>

lemma sign_cip30_message_eq:
  "sign_cip30_message lib message skey addr
     = (if list_ex is_surrogate message then Inl UnicodeEncodeError
        else Inr (spec_envelope lib (concat (map utf8_char message)) skey addr))"
  by (simp add: sign_cip30_message_def encode_utf8_def spec_envelope_def
        spec_signed_bytes_def spec_protected_header_def Let_def)

lemma plain_messages:
  "\<not> list_ex is_surrogate (S s)"
proof -
  have "(of_char c :: nat) < 55296" for c :: char
  proof -
    have "(of_char c :: nat) < 256" by simp
    then show ?thesis by linarith
  qed
  then show ?thesis
    by (auto simp: S_def is_surrogate_def list_ex_iff not_le)
qed

lemmas run_simps =
  consolidate_all_def consolidate_one_def consolidate_address_def consolidate_result_def
  register_all_addresses_def register_one_def register_address_def register_result_def
  load_partial_def has_address_def reg_entry_def error_msg_of_def
  address_map_def consolidation_message_def sign_cip30_message_eq plain_messages
  emit_def Let_def success_def ok_def server_def reply_def start_def no_files_def
  summary_def failure_entry_def since_def results_file_def temp_file_def
  rec0_def rec1_def ledger_world_def

section \<open>Skipping what the ledger records\<close>

lemma register_loop_skips:
  assumes "register_loop lib ev message n i rest (regs, Some ra, w) = (res, w')"
    and "a \<in> ra"
  shows "\<exists>evs. trace w' = trace w @ evs \<and> filter (about a) evs = []"
  using assms
proof (induction rest arbitrary: i regs ra w)
  case Nil
  then show ?case by simp
next
  case (Cons x rest)
  show ?case
  proof (cases "address x \<in> ra")
    case True
    with Cons.prems have
      "register_loop lib ev message n (Suc i) rest (regs, Some ra, w) = (res, w')"
      by simp
    from Cons.IH [OF this Cons.prems(2)] show ?thesis .
  next
    case False
    then have ne: "a \<noteq> address x" using Cons.prems(2) by auto
    obtain regs1 ra1 w1 where
      one: "register_one lib ev message x (regs, ra, w) = (regs1, ra1, w1)"
      by (cases "register_one lib ev message x (regs, ra, w)") auto
    define w2 where "w2 = (if Suc i < n then emit (Sleep 2000) w1 else w1)"
    from Cons.prems(1) False one have
      rest: "register_loop lib ev message n (Suc i) rest (regs1, Some ra1, w2) = (res, w')"
      by (simp add: w2_def)
    from one have "a \<in> ra1 \<and> (\<exists>c. trace w2 = trace w @ c \<and> filter (about a) c = [])"
      using ne Cons.prems(2)
      by (cases rule: register_one_cases) (auto simp: w2_def emit_def)
    then obtain c where a1: "a \<in> ra1" and c: "trace w2 = trace w @ c" "filter (about a) c = []"
      by blast
    from Cons.IH [OF rest a1] obtain evs where
      "trace w' = trace w2 @ evs" "filter (about a) evs = []" by blast
    with c show ?thesis by (intro exI [of _ "c @ evs"]) simp
  qed
qed

text \<open>
  Claim C3, as the specification states it, fails for the consolidation batch, which reads
  no ledger: after a run that recorded the address as consolidated, a second run over the
  same list signs and posts for that address again.
\<close>

theorem consolidation_repeats_recorded_address:
  "fst first_consolidation = 1
   \<and> summary_results (the (consolidation_results (files (snd first_consolidation))))
       = [JObj [(''address'', JStr ''addr13130''), (''success'', JBool True),
                (''data'', JObj [(''message'', JStr ''Success (no JSON response)'')])]]
   \<and> map brief_of (since (snd first_consolidation) (snd second_consolidation))
       = [Signed ''addr13130'', Posted ''addr13130'' 200, Wrote ''consolidation-results.json'']"
  by (simp add: second_consolidation_def first_consolidation_def run_simps)

text \<open>
  Claim C3, amended. In the registration batch, when \<open>registrations-partial.json\<close> holds a
  list of entries that all have an address, no signing operation and no remote call is
  made for an address of that list: the loop checks the set of recorded addresses before
  it processes an address, and skips it.
\<close>

theorem recorded_addresses_are_skipped:
  assumes "registrations_partial (files w) = Some (Parsed ledger)"
    and "list_all has_address ledger"
    and "a \<in> set (map (\<lambda>r. the (map_of r ''address'')) ledger)"
    and "register_all_addresses lib ev addresses message w = (res, w')"
  shows "filter (about a) (since w w') = []"
proof -
  from assms(1,2) have
    "load_partial (files w) = (ledger, Some (set (map (\<lambda>r. the (map_of r ''address'')) ledger)))"
    by (simp add: load_partial_def)
  with assms(4) have
    "register_loop lib ev message (length addresses) 0 addresses
       (ledger, Some (set (map (\<lambda>r. the (map_of r ''address'')) ledger)), w) = (res, w')"
    by (simp add: register_all_addresses_def)
  from register_loop_skips [OF this assms(3)] show ?thesis
    by (auto simp: since_append)
qed

theorem recorded_addresses_are_skipped_witness:
  "registrations_partial (files (ledger_world [reg_entry ''addr13130'' ''84'' ''31'']))
     = Some (Parsed [reg_entry ''addr13130'' ''84'' ''31''])
   \<and> list_all has_address [reg_entry ''addr13130'' ''84'' ''31'']
   \<and> ''addr13130'' \<in> set (map (\<lambda>r. the (map_of r ''address''))
                              [reg_entry ''addr13130'' ''84'' ''31''])
   \<and> filter (about ''addr13130'')
        (since (ledger_world [reg_entry ''addr13130'' ''84'' ''31''])
           (snd resumed_registration)) = []
   \<and> map brief_of (since (ledger_world [reg_entry ''addr13130'' ''84'' ''31''])
                      (snd resumed_registration))
       = [Signed ''addr13230'', Posted ''addr13230'' 200, Wrote ''registrations-partial.json'']"
proof -
  have 1: "registrations_partial (files (ledger_world [reg_entry ''addr13130'' ''84'' ''31'']))
             = Some (Parsed [reg_entry ''addr13130'' ''84'' ''31''])"
    by (simp add: ledger_world_def no_files_def)
  have 2: "list_all has_address [reg_entry ''addr13130'' ''84'' ''31'']"
    by (simp add: has_address_def reg_entry_def)
  have 3: "''addr13130'' \<in> set (map (\<lambda>r. the (map_of r ''address''))
                                   [reg_entry ''addr13130'' ''84'' ''31''])"
    by (simp add: reg_entry_def)
  have 4: "register_all_addresses demo_lib (server 200) [rec0, rec1] (S ''terms'')
             (ledger_world [reg_entry ''addr13130'' ''84'' ''31''])
           = (fst resumed_registration, snd resumed_registration)"
    by (simp add: resumed_registration_def)
  have 5: "map brief_of (since (ledger_world [reg_entry ''addr13130'' ''84'' ''31''])
                      (snd resumed_registration))
       = [Signed ''addr13230'', Posted ''addr13230'' 200, Wrote ''registrations-partial.json'']"
    by (simp add: resumed_registration_def run_simps)
  from recorded_addresses_are_skipped [OF 1 2 3 4] 1 2 3 5 show ?thesis
    by blast
qed

section \<open>Pacing and rate limiting\<close>

lemma delay_first_append:
  "delay_first d es \<Longrightarrow> \<not> is_sign e \<Longrightarrow> \<not> is_network e \<Longrightarrow> delay_first d (es @ [e])"
  by (induction es) (auto split: if_splits)

lemma paced_single: "\<not> is_network e \<Longrightarrow> paced d [e]"
  by (cases e) auto

lemma paced_append:
  "paced d es \<Longrightarrow> \<not> is_sign e \<Longrightarrow> \<not> is_network e \<Longrightarrow> paced d (es @ [e])"
  by (induction d es rule: paced.induct) (auto simp: delay_first_append paced_single)

lemma register_loop_paced:
  assumes "register_loop lib ev message n i rest (regs, Some ra, w) = (res, w')"
    and "i + length rest = n"
  shows "\<exists>evs. trace w' = trace w @ evs \<and> paced 2000 evs
           \<and> length (filter is_network evs) \<le> length rest
           \<and> (rest = [] \<longrightarrow> evs = [])"
  using assms
proof (induction rest arbitrary: i regs ra w)
  case Nil
  then show ?case by simp
next
  case (Cons x rest)
  show ?case
  proof (cases "address x \<in> ra")
    case True
    with Cons.prems have
      "register_loop lib ev message n (Suc i) rest (regs, Some ra, w) = (res, w')"
      "Suc i + length rest = n"
      by simp_all
    from Cons.IH [OF this] show ?thesis by auto
  next
    case False
    obtain regs1 ra1 w1 where
      one: "register_one lib ev message x (regs, ra, w) = (regs1, ra1, w1)"
      by (cases "register_one lib ev message x (regs, ra, w)") auto
    define w2 where "w2 = (if Suc i < n then emit (Sleep 2000) w1 else w1)"
    from Cons.prems False one have
      rest: "register_loop lib ev message n (Suc i) rest (regs1, Some ra1, w2) = (res, w')"
        "Suc i + length rest = n"
      by (simp_all add: w2_def)
    from Cons.IH [OF rest] obtain evs where
      evs: "trace w' = trace w2 @ evs" "paced 2000 evs"
        "length (filter is_network evs) \<le> length rest" "rest = [] \<longrightarrow> evs = []"
      by blast
    have last: "\<not> Suc i < n \<Longrightarrow> evs = []"
      using rest(2) evs(4) by auto
    from one show ?thesis
    proof (cases rule: register_one_cases)
      case unsigned
      then show ?thesis
        using evs last
        by (intro exI [of _ "(if Suc i < n then [Sleep 2000] else []) @ evs"])
           (auto simp: w2_def emit_def)
    next
      case (refused sg r)
      then show ?thesis
        using evs last
        by (intro exI [of _ "[Sign (address x),
                 Post (address x) (register_url (address x) sg (hex (payment_vkey x))) r]
               @ (if Suc i < n then [Sleep 2000] else []) @ evs"])
           (auto simp: w2_def emit_def)
    next
      case (recorded sg r)
      then show ?thesis
        using evs last
        by (intro exI [of _ "[Sign (address x),
                 Post (address x) (register_url (address x) sg (hex (payment_vkey x))) r,
                 WriteLedger temp_file regs1]
               @ (if Suc i < n then [Sleep 2000] else []) @ evs"])
           (auto simp: w2_def emit_def)
    qed
  qed
qed

lemma consolidate_loop_paced:
  assumes "consolidate_loop lib ev d amap n i rest (cnt, results, w) = (cnt', results', w')"
    and "i + length rest = n"
  shows "\<exists>evs. trace w' = trace w @ evs \<and> paced 500 evs
           \<and> length (filter is_network evs) \<le> length rest
           \<and> filter is_write evs = []
           \<and> (rest = [] \<longrightarrow> evs = [])"
  using assms
proof (induction rest arbitrary: i cnt results w)
  case Nil
  then show ?case by simp
next
  case (Cons a rest)
  show ?case
  proof (cases "amap a")
    case None
    with Cons.prems have
      "consolidate_loop lib ev d amap n (Suc i) rest
         (cnt, results @ [failure_entry a ''Not in derived set''], w) = (cnt', results', w')"
      "Suc i + length rest = n"
      by simp_all
    from Cons.IH [OF this] show ?thesis by auto
  next
    case (Some x)
    obtain c1 r1 w1 where one: "consolidate_one lib ev d a x (cnt, results, w) = (c1, r1, w1)"
      by (cases "consolidate_one lib ev d a x (cnt, results, w)") auto
    define w2 where "w2 = (if Suc i < n then emit (Sleep 500) w1 else w1)"
    from Cons.prems Some one have
      rest: "consolidate_loop lib ev d amap n (Suc i) rest (c1, r1, w2) = (cnt', results', w')"
        "Suc i + length rest = n"
      by (simp_all add: w2_def)
    from Cons.IH [OF rest] obtain evs where
      evs: "trace w' = trace w2 @ evs" "paced 500 evs"
        "length (filter is_network evs) \<le> length rest" "filter is_write evs = []"
        "rest = [] \<longrightarrow> evs = []"
      by blast
    have last: "\<not> Suc i < n \<Longrightarrow> evs = []"
      using rest(2) evs(5) by auto
    from one show ?thesis
    proof (cases rule: consolidate_one_cases)
      case (unsigned entry)
      then show ?thesis
        using evs last
        by (intro exI [of _ "(if Suc i < n then [Sleep 500] else []) @ evs"])
           (auto simp: w2_def emit_def)
    next
      case (posted sg r entry)
      then show ?thesis
        using evs last
        by (intro exI [of _ "[Sign (address x), Post a (donate_url d a sg) r]
               @ (if Suc i < n then [Sleep 500] else []) @ evs"])
           (auto simp: w2_def emit_def)
    qed
  qed
qed

text \<open>
  Claim C4, as the specification states it, fails: neither loop treats a 429 answer
  differently from another failed request. With a service that answers the first request
  with 429, the runs are, status apart, the runs with a first answer 500: the same fixed
  delay follows, the address is not tried again, and the consolidation records the answer
  as the failure of that address.
\<close>

theorem rate_limit_handled_as_failure:
  "map brief_of (trace (snd (consolidation_answering 429)))
     = [Signed ''addr13130'', Posted ''addr13130'' 429, Slept 500,
        Signed ''addr13230'', Posted ''addr13230'' 200, Wrote ''consolidation-results.json'']
   \<and> map brief_of (trace (snd (consolidation_answering 500)))
     = [Signed ''addr13130'', Posted ''addr13130'' 500, Slept 500,
        Signed ''addr13230'', Posted ''addr13230'' 200, Wrote ''consolidation-results.json'']
   \<and> summary_results (the (consolidation_results (files (snd (consolidation_answering 429))))) ! 0
     = JObj [(''address'', JStr ''addr13130''), (''success'', JBool False),
             (''error'', JStr ''HTTP 429: ''), (''status'', JNum 429)]
   \<and> map brief_of (trace (snd (registration_answering 429)))
     = [Signed ''addr13130'', Posted ''addr13130'' 429, Slept 2000,
        Signed ''addr13230'', Posted ''addr13230'' 200, Wrote ''registrations-partial.json'']
   \<and> map brief_of (trace (snd (registration_answering 500)))
     = [Signed ''addr13130'', Posted ''addr13130'' 500, Slept 2000,
        Signed ''addr13230'', Posted ''addr13230'' 200, Wrote ''registrations-partial.json'']"
  by (simp add: consolidation_answering_def registration_answering_def run_simps)

text \<open>
  Claim C4, amended. In both batches every POST, whatever its answer, a 429 included, is
  followed by the fixed delay of the loop (2 seconds in the registration, half a second
  in the consolidation) before any further signing operation or network call, and a run
  makes at most as many network calls as there are addresses in its list; an answer with
  status 429 is never a success result.
\<close>

theorem rate_limit_is_paced_like_any_answer:
  "(register_all_addresses lib ev addresses message w = (res, w')
      \<longrightarrow> paced 2000 (since w w')
          \<and> length (filter is_network (since w w')) \<le> length addresses)
   \<and> (consolidate_all lib ev destination derived registered w = (cnt, w'')
      \<longrightarrow> paced 500 (since w w'')
          \<and> length (filter is_network (since w w'')) \<le> length registered)
   \<and> (rate_limited r
      \<longrightarrow> \<not> success (register_result ev r) \<and> \<not> success (consolidate_result ev url r))"
proof (intro conjI impI)
  assume run: "register_all_addresses lib ev addresses message w = (res, w')"
  obtain regs addrs where l: "load_partial (files w) = (regs, addrs)"
    by (cases "load_partial (files w)") auto
  have "\<exists>evs. trace w' = trace w @ evs \<and> paced 2000 evs
          \<and> length (filter is_network evs) \<le> length addresses"
  proof (cases addrs)
    case None
    with run l have "w' = w"
      by (auto simp: register_all_addresses_def dest: register_loop_unbound)
    then show ?thesis by simp
  next
    case (Some ra)
    with run l have
      "register_loop lib ev message (length addresses) 0 addresses (regs, Some ra, w) = (res, w')"
      by (simp add: register_all_addresses_def)
    from register_loop_paced [OF this] show ?thesis by auto
  qed
  then show "paced 2000 (since w w')"
    and "length (filter is_network (since w w')) \<le> length addresses"
    by (auto simp: since_append)
next
  assume run: "consolidate_all lib ev destination derived registered w = (cnt, w'')"
  obtain c rs w1 where
    loop: "consolidate_loop lib ev destination (address_map derived) (length registered) 0
             registered (0, [], w) = (c, rs, w1)"
    by (cases "consolidate_loop lib ev destination (address_map derived) (length registered) 0
             registered (0, [], w)") auto
  from consolidate_loop_paced [OF loop] obtain evs where
    evs: "trace w1 = trace w @ evs" "paced 500 evs"
      "length (filter is_network evs) \<le> length registered"
    by auto
  from run loop have
    "trace w'' = trace w1
       @ [WriteResults results_file (summary destination (length registered) c rs)]"
    by (auto simp: consolidate_all_def Let_def emit_def)
  with evs have
    t: "trace w'' = trace w
          @ (evs @ [WriteResults results_file (summary destination (length registered) c rs)])"
    by simp
  show "paced 500 (since w w'')"
    unfolding since_append [OF t] using evs(2) by (simp add: paced_append)
  show "length (filter is_network (since w w'')) \<le> length registered"
    unfolding since_append [OF t] using evs(3) by simp
next
  assume "rate_limited r"
  then show "\<not> success (register_result ev r)"
    by (auto simp: rate_limited_def register_result_def success_def split: sum.splits)
next
  assume "rate_limited r"
  then show "\<not> success (consolidate_result ev url r)"
    by (auto simp: rate_limited_def consolidate_result_def success_def ok_def
             split: sum.splits option.splits)
qed

theorem rate_limit_is_paced_like_any_answer_witness:
  "paced 2000 (since start (snd (registration_answering 429)))
   \<and> length (filter is_network (since start (snd (registration_answering 429)))) \<le> 2
   \<and> paced 500 (since start (snd (consolidation_answering 429)))
   \<and> length (filter is_network (since start (snd (consolidation_answering 429)))) \<le> 2
   \<and> rate_limited (Inr (reply 429))
   \<and> \<not> success (register_result (server 429) (Inr (reply 429)))
   \<and> \<not> success (consolidate_result (server 429) ''url'' (Inr (reply 429)))"
proof -
  have r: "rate_limited (Inr (reply 429))"
    by (simp add: rate_limited_def reply_def)
  have 1: "register_all_addresses demo_lib (server 429) [rec0, rec1] (S ''terms'') start
             = (fst (registration_answering 429), snd (registration_answering 429))"
    by (simp add: registration_answering_def)
  have 2: "consolidate_all demo_lib (server 429) ''addr1dest'' [rec0, rec1]
             [''addr13130'', ''addr13230''] start
             = (fst (consolidation_answering 429), snd (consolidation_answering 429))"
    by (simp add: consolidation_answering_def)
  from rate_limit_is_paced_like_any_answer
         [where lib = demo_lib and ev = "server 429" and addresses = "[rec0, rec1]"
            and message = "S ''terms''" and w = start
            and res = "fst (registration_answering 429)"
            and w' = "snd (registration_answering 429)"
            and destination = "''addr1dest''" and derived = "[rec0, rec1]"
            and registered = "[''addr13130'', ''addr13230'']"
            and cnt = "fst (consolidation_answering 429)"
            and w'' = "snd (consolidation_answering 429)"
            and r = "Inr (reply 429)" and url = "''url''"]
    1 2 r
  show ?thesis by simp
qed

section \<open>Persisting the ledger\<close>

lemma register_loop_persisted:
  assumes "register_loop lib ev message n i rest (regs, Some ra, w) = (res, w')"
  shows "\<exists>evs. trace w' = trace w @ evs \<and> persisted ev evs"
  using assms
proof (induction rest arbitrary: i regs ra w)
  case Nil
  then show ?case by simp
next
  case (Cons x rest)
  show ?case
  proof (cases "address x \<in> ra")
    case True
    with Cons.prems have
      "register_loop lib ev message n (Suc i) rest (regs, Some ra, w) = (res, w')"
      by simp
    from Cons.IH [OF this] show ?thesis .
  next
    case False
    obtain regs1 ra1 w1 where
      one: "register_one lib ev message x (regs, ra, w) = (regs1, ra1, w1)"
      by (cases "register_one lib ev message x (regs, ra, w)") auto
    define w2 where "w2 = (if Suc i < n then emit (Sleep 2000) w1 else w1)"
    from Cons.prems False one have
      rest: "register_loop lib ev message n (Suc i) rest (regs1, Some ra1, w2) = (res, w')"
      by (simp add: w2_def)
    from Cons.IH [OF rest] obtain evs where
      evs: "trace w' = trace w2 @ evs" "persisted ev evs"
      by blast
    from one show ?thesis
    proof (cases rule: register_one_cases)
      case unsigned
      then show ?thesis
        using evs
        by (intro exI [of _ "(if Suc i < n then [Sleep 2000] else []) @ evs"])
           (auto simp: w2_def emit_def)
    next
      case (refused sg r)
      then show ?thesis
        using evs
        by (intro exI [of _ "[Sign (address x),
                 Post (address x) (register_url (address x) sg (hex (payment_vkey x))) r]
               @ (if Suc i < n then [Sleep 2000] else []) @ evs"])
           (auto simp: w2_def emit_def)
    next
      case (recorded sg r)
      then show ?thesis
        using evs
        by (intro exI [of _ "[Sign (address x),
                 Post (address x) (register_url (address x) sg (hex (payment_vkey x))) r,
                 WriteLedger temp_file regs1]
               @ (if Suc i < n then [Sleep 2000] else []) @ evs"])
           (auto simp: w2_def emit_def reg_entry_def)
    qed
  qed
qed

text \<open>
  Claim C5, as the specification states it, fails for the consolidation batch: with two
  addresses that are both consolidated, nothing is written until both have been signed
  for and posted.
\<close>

theorem consolidation_persists_only_at_end:
  "fst (consolidation_answering 200) = 2
   \<and> map brief_of (trace (snd (consolidation_answering 200)))
       = [Signed ''addr13130'', Posted ''addr13130'' 200, Slept 500,
          Signed ''addr13230'', Posted ''addr13230'' 200, Wrote ''consolidation-results.json'']"
  by (simp add: consolidation_answering_def run_simps)

text \<open>
  Claim C5, amended. In the registration batch every POST whose result is a success is
  followed at once, before the loop goes on, by a write of \<open>registrations-partial.json\<close>
  whose last entry is the entry of that address. The consolidation batch writes one file,
  \<open>consolidation-results.json\<close>, once, as the last thing it does.
\<close>

theorem registration_persists_each_success:
  "(register_all_addresses lib ev addresses message w = (res, w')
      \<longrightarrow> persisted ev (since w w'))
   \<and> (consolidate_all lib ev destination derived registered w = (cnt, w'')
      \<longrightarrow> (\<exists>before doc. since w w'' = before @ [WriteResults results_file doc]
                 \<and> filter is_write before = []))"
proof (intro conjI impI)
  assume run: "register_all_addresses lib ev addresses message w = (res, w')"
  obtain regs addrs where l: "load_partial (files w) = (regs, addrs)"
    by (cases "load_partial (files w)") auto
  have "\<exists>evs. trace w' = trace w @ evs \<and> persisted ev evs"
  proof (cases addrs)
    case None
    with run l have "w' = w"
      by (auto simp: register_all_addresses_def dest: register_loop_unbound)
    then show ?thesis by simp
  next
    case (Some ra)
    with run l have
      "register_loop lib ev message (length addresses) 0 addresses (regs, Some ra, w) = (res, w')"
      by (simp add: register_all_addresses_def)
    from register_loop_persisted [OF this] show ?thesis .
  qed
  then show "persisted ev (since w w')"
    by (auto simp: since_append)
next
  assume run: "consolidate_all lib ev destination derived registered w = (cnt, w'')"
  obtain c rs w1 where
    loop: "consolidate_loop lib ev destination (address_map derived) (length registered) 0
             registered (0, [], w) = (c, rs, w1)"
    by (cases "consolidate_loop lib ev destination (address_map derived) (length registered) 0
             registered (0, [], w)") auto
  from consolidate_loop_paced [OF loop] obtain evs where
    evs: "trace w1 = trace w @ evs" "filter is_write evs = []"
    by auto
  from run loop have
    "trace w'' = trace w1
       @ [WriteResults results_file (summary destination (length registered) c rs)]"
    by (auto simp: consolidate_all_def Let_def emit_def)
  with evs have
    t: "trace w'' = trace w
          @ (evs @ [WriteResults results_file (summary destination (length registered) c rs)])"
    by simp
  show "\<exists>before doc. since w w'' = before @ [WriteResults results_file doc]
          \<and> filter is_write before = []"
    unfolding since_append [OF t] using evs(2) by blast
qed

theorem registration_persists_each_success_witness:
  "persisted (server 200) (since start (snd (registration_answering 200)))
   \<and> map brief_of (since start (snd (registration_answering 200)))
       = [Signed ''addr13130'', Posted ''addr13130'' 200, Wrote ''registrations-partial.json'',
          Slept 2000,
          Signed ''addr13230'', Posted ''addr13230'' 200, Wrote ''registrations-partial.json'']
   \<and> (\<exists>before doc.
         since start (snd (consolidation_answering 200))
           = before @ [WriteResults results_file doc]
         \<and> filter is_write before = [])"
proof -
  have 1: "register_all_addresses demo_lib (server 200) [rec0, rec1] (S ''terms'') start
             = (fst (registration_answering 200), snd (registration_answering 200))"
    by (simp add: registration_answering_def)
  have 2: "consolidate_all demo_lib (server 200) ''addr1dest'' [rec0, rec1]
             [''addr13130'', ''addr13230''] start
             = (fst (consolidation_answering 200), snd (consolidation_answering 200))"
    by (simp add: consolidation_answering_def)
  have 3: "map brief_of (since start (snd (registration_answering 200)))
       = [Signed ''addr13130'', Posted ''addr13130'' 200, Wrote ''registrations-partial.json'',
          Slept 2000,
          Signed ''addr13230'', Posted ''addr13230'' 200, Wrote ''registrations-partial.json'']"
    by (simp add: registration_answering_def run_simps)
  from registration_persists_each_success
         [where lib = demo_lib and ev = "server 200" and addresses = "[rec0, rec1]"
            and message = "S ''terms''" and w = start
            and res = "fst (registration_answering 200)"
            and w' = "snd (registration_answering 200)"
            and destination = "''addr1dest''" and derived = "[rec0, rec1]"
            and registered = "[''addr13130'', ''addr13230'']"
            and cnt = "fst (consolidation_answering 200)"
            and w'' = "snd (consolidation_answering 200)"]
    1 2 3
  show ?thesis by blast
qed

section \<open>What is written and what is sent\<close>

lemma public_entryI:
  "x \<in> set addresses \<Longrightarrow> signature_of lib message x = Some sg
     \<Longrightarrow> public_entry lib message addresses (reg_entry (address x) sg (hex (payment_vkey x)))"
  by (auto simp: public_entry_def list_ex_iff intro!: bexI [of _ x])

lemma registration_public_PostI:
  "x \<in> set addresses \<Longrightarrow> signature_of lib message x = Some sg
     \<Longrightarrow> registration_public lib message addresses loaded
           (Post (address x) (register_url (address x) sg (hex (payment_vkey x))) r)"
  by (auto simp: list_ex_iff intro!: bexI [of _ x])

lemma consolidation_public_PostI:
  "x \<in> set derived \<Longrightarrow> signature_of lib (consolidation_message d) x = Some sg
     \<Longrightarrow> consolidation_public lib d derived (Post (address x) (donate_url d (address x) sg) r)"
  by (auto simp: list_ex_iff intro!: bexI [of _ x])

lemma register_loop_public:
  assumes "register_loop lib ev message n i rest (regs, Some ra, w) = (res, w')"
    and "set rest \<subseteq> set addresses"
    and "list_all (\<lambda>e. e \<in> set loaded \<or> public_entry lib message addresses e) regs"
  shows "\<exists>evs. trace w' = trace w @ evs
           \<and> list_all (registration_public lib message addresses loaded) evs"
  using assms
proof (induction rest arbitrary: i regs ra w)
  case Nil
  then show ?case by simp
next
  case (Cons x rest)
  then have x: "x \<in> set addresses" and sub: "set rest \<subseteq> set addresses" by auto
  show ?case
  proof (cases "address x \<in> ra")
    case True
    with Cons.prems have
      "register_loop lib ev message n (Suc i) rest (regs, Some ra, w) = (res, w')"
      by simp
    from Cons.IH [OF this sub Cons.prems(3)] show ?thesis .
  next
    case False
    obtain regs1 ra1 w1 where
      one: "register_one lib ev message x (regs, ra, w) = (regs1, ra1, w1)"
      by (cases "register_one lib ev message x (regs, ra, w)") auto
    define w2 where "w2 = (if Suc i < n then emit (Sleep 2000) w1 else w1)"
    from Cons.prems False one have
      rest: "register_loop lib ev message n (Suc i) rest (regs1, Some ra1, w2) = (res, w')"
      by (simp add: w2_def)
    from one have
      regs1: "list_all (\<lambda>e. e \<in> set loaded \<or> public_entry lib message addresses e) regs1"
      using Cons.prems(3) x
      by (cases rule: register_one_cases) (auto simp: public_entryI)
    from Cons.IH [OF rest sub regs1] obtain evs where
      evs: "trace w' = trace w2 @ evs"
        "list_all (registration_public lib message addresses loaded) evs"
      by blast
    from one show ?thesis
    proof (cases rule: register_one_cases)
      case unsigned
      then show ?thesis
        using evs
        by (intro exI [of _ "(if Suc i < n then [Sleep 2000] else []) @ evs"])
           (auto simp: w2_def emit_def)
    next
      case (refused sg r)
      then show ?thesis
        using evs registration_public_PostI [OF x refused(1), of loaded r]
        by (intro exI [of _ "[Sign (address x),
                 Post (address x) (register_url (address x) sg (hex (payment_vkey x))) r]
               @ (if Suc i < n then [Sleep 2000] else []) @ evs"])
           (auto simp: w2_def emit_def simp del: registration_public.simps(3))
    next
      case (recorded sg r)
      then show ?thesis
        using evs regs1 registration_public_PostI [OF x recorded(1), of loaded r]
        by (intro exI [of _ "[Sign (address x),
                 Post (address x) (register_url (address x) sg (hex (payment_vkey x))) r,
                 WriteLedger temp_file regs1]
               @ (if Suc i < n then [Sleep 2000] else []) @ evs"])
           (auto simp: w2_def emit_def simp del: registration_public.simps(3))
    qed
  qed
qed

lemma address_map_Some:
  "address_map derived a = Some x \<Longrightarrow> x \<in> set derived \<and> address x = a"
  by (auto simp: address_map_def dest!: map_of_SomeD)

lemma consolidate_loop_public:
  assumes "consolidate_loop lib ev d amap n i rest (cnt, results, w) = (cnt', results', w')"
    and "\<And>a x. amap a = Some x \<Longrightarrow> x \<in> set derived \<and> address x = a"
    and "list_all (\<lambda>r. result_keys r \<in> code_result_keys) results"
  shows "\<exists>evs. trace w' = trace w @ evs
           \<and> list_all (consolidation_public lib d derived) evs
           \<and> list_all (\<lambda>r. result_keys r \<in> code_result_keys) results'"
  using assms(1,3)
proof (induction rest arbitrary: i cnt results w)
  case Nil
  then show ?case by simp
next
  case (Cons a rest)
  show ?case
  proof (cases "amap a")
    case None
    with Cons.prems have
      "consolidate_loop lib ev d amap n (Suc i) rest
         (cnt, results @ [failure_entry a ''Not in derived set''], w) = (cnt', results', w')"
      "list_all (\<lambda>r. result_keys r \<in> code_result_keys)
         (results @ [failure_entry a ''Not in derived set''])"
      by (simp_all add: failure_entry_def code_result_keys_def spec_result_keys_def)
    from Cons.IH [OF this] show ?thesis .
  next
    case (Some x)
    from assms(2) [OF Some] have x: "x \<in> set derived" "address x = a" by auto
    obtain c1 r1 w1 where one: "consolidate_one lib ev d a x (cnt, results, w) = (c1, r1, w1)"
      by (cases "consolidate_one lib ev d a x (cnt, results, w)") auto
    define w2 where "w2 = (if Suc i < n then emit (Sleep 500) w1 else w1)"
    from Cons.prems Some one have
      rest: "consolidate_loop lib ev d amap n (Suc i) rest (c1, r1, w2) = (cnt', results', w')"
      by (simp add: w2_def)
    from one have r1: "list_all (\<lambda>r. result_keys r \<in> code_result_keys) r1"
      using Cons.prems(2) by (cases rule: consolidate_one_cases) auto
    from Cons.IH [OF rest r1] obtain evs where
      evs: "trace w' = trace w2 @ evs" "list_all (consolidation_public lib d derived) evs"
        "list_all (\<lambda>r. result_keys r \<in> code_result_keys) results'"
      by blast
    from one show ?thesis
    proof (cases rule: consolidate_one_cases)
      case (unsigned entry)
      then show ?thesis
        using evs
        by (intro exI [of _ "(if Suc i < n then [Sleep 500] else []) @ evs"])
           (auto simp: w2_def emit_def)
    next
      case (posted sg r entry)
      then show ?thesis
        using evs x consolidation_public_PostI [OF x(1) posted(1), of r]
        by (intro exI [of _ "[Sign (address x), Post a (donate_url d a sg) r]
               @ (if Suc i < n then [Sleep 500] else []) @ evs"])
           (auto simp: w2_def emit_def simp del: consolidation_public.simps(3))
    qed
  qed
qed

text \<open>
  Claim C7, as the specification states it, fails on the shape of a consolidation result:
  the entry of a consolidated address holds the key \<open>data\<close>, with the answer of the service,
  which is none of address, success flag, error and status.
\<close>

theorem consolidation_result_has_data:
  "result_keys (summary_results
       (the (consolidation_results (files (snd first_consolidation)))) ! 0)
     = [''address'', ''success'', ''data'']
   \<and> [''address'', ''success'', ''data''] \<notin> spec_result_keys"
  by (simp add: first_consolidation_def run_simps spec_result_keys_def)

text \<open>
  Claim C7, amended. In a registration batch every URL posted to is made of the address,
  the envelope and the public key of one of the derived records, and every entry written
  to the ledger either was loaded from it or consists of exactly those three strings under
  the keys \<open>address\<close>, \<open>signature\<close> and \<open>pubkey\<close>. In a consolidation batch every URL
  posted to is made of the destination, the address and the envelope of one of the derived
  records, and every result entry written has the keys \<open>address\<close>, \<open>success\<close> and then
  \<open>data\<close>, or \<open>error\<close>, or \<open>error\<close> and \<open>status\<close>. Neither batch performs any other
  network call or file operation, so no signing key and no seed is written or sent.
\<close>

theorem only_public_data_leaves:
  "(register_all_addresses lib ev addresses message w = (res, w')
      \<longrightarrow> list_all (registration_public lib message addresses (fst (load_partial (files w))))
            (since w w'))
   \<and> (consolidate_all lib ev destination derived registered w = (cnt, w'')
      \<longrightarrow> list_all (consolidation_public lib destination derived) (since w w''))"
proof (intro conjI impI)
  assume run: "register_all_addresses lib ev addresses message w = (res, w')"
  obtain regs addrs where l: "load_partial (files w) = (regs, addrs)"
    by (cases "load_partial (files w)") auto
  have "\<exists>evs. trace w' = trace w @ evs
          \<and> list_all (registration_public lib message addresses regs) evs"
  proof (cases addrs)
    case None
    with run l have "w' = w"
      by (auto simp: register_all_addresses_def dest: register_loop_unbound)
    then show ?thesis by simp
  next
    case (Some ra)
    with run l have
      "register_loop lib ev message (length addresses) 0 addresses (regs, Some ra, w) = (res, w')"
      by (simp add: register_all_addresses_def)
    from register_loop_public [OF this, of addresses regs] show ?thesis
      by (simp add: list_all_iff)
  qed
  then show "list_all (registration_public lib message addresses (fst (load_partial (files w))))
               (since w w')"
    using l by (auto simp: since_append)
next
  assume run: "consolidate_all lib ev destination derived registered w = (cnt, w'')"
  obtain c rs w1 where
    loop: "consolidate_loop lib ev destination (address_map derived) (length registered) 0
             registered (0, [], w) = (c, rs, w1)"
    by (cases "consolidate_loop lib ev destination (address_map derived) (length registered) 0
             registered (0, [], w)") auto
  from consolidate_loop_public [OF loop, of derived] obtain evs where
    evs: "trace w1 = trace w @ evs" "list_all (consolidation_public lib destination derived) evs"
      "list_all (\<lambda>r. result_keys r \<in> code_result_keys) rs"
    by (auto dest: address_map_Some)
  from run loop have
    "trace w'' = trace w1
       @ [WriteResults results_file (summary destination (length registered) c rs)]"
    by (auto simp: consolidate_all_def Let_def emit_def)
  with evs have
    t: "trace w'' = trace w
          @ (evs @ [WriteResults results_file (summary destination (length registered) c rs)])"
    by simp
  show "list_all (consolidation_public lib destination derived) (since w w'')"
    unfolding since_append [OF t] using evs(2,3) by (simp add: summary_def)
qed

theorem only_public_data_leaves_witness:
  "list_all (registration_public demo_lib (S ''terms'') [rec0, rec1]
               (fst (load_partial (files start))))
     (since start (snd (registration_answering 200)))
   \<and> list_all (consolidation_public demo_lib ''addr1dest'' [rec0, rec1])
       (since start (snd (consolidation_answering 200)))
   \<and> map brief_of (since start (snd (consolidation_answering 200)))
       = [Signed ''addr13130'', Posted ''addr13130'' 200, Slept 500,
          Signed ''addr13230'', Posted ''addr13230'' 200, Wrote ''consolidation-results.json'']"
proof -
  have 1: "register_all_addresses demo_lib (server 200) [rec0, rec1] (S ''terms'') start
             = (fst (registration_answering 200), snd (registration_answering 200))"
    by (simp add: registration_answering_def)
  have 2: "consolidate_all demo_lib (server 200) ''addr1dest'' [rec0, rec1]
             [''addr13130'', ''addr13230''] start
             = (fst (consolidation_answering 200), snd (consolidation_answering 200))"
    by (simp add: consolidation_answering_def)
  have 3: "map brief_of (since start (snd (consolidation_answering 200)))
       = [Signed ''addr13130'', Posted ''addr13130'' 200, Slept 500,
          Signed ''addr13230'', Posted ''addr13230'' 200, Wrote ''consolidation-results.json'']"
    by (simp add: consolidation_answering_def run_simps)
  from only_public_data_leaves
         [where lib = demo_lib and ev = "server 200" and addresses = "[rec0, rec1]"
            and message = "S ''terms''" and w = start
            and res = "fst (registration_answering 200)"
            and w' = "snd (registration_answering 200)"
            and destination = "''addr1dest''" and derived = "[rec0, rec1]"
            and registered = "[''addr13130'', ''addr13230'']"
            and cnt = "fst (consolidation_answering 200)"
            and w'' = "snd (consolidation_answering 200)"]
    1 2 3
  show ?thesis by blast
qed

section \<open>Clearing the seed\<close>

text \<open>
  Claim C8 does not hold of the code. The \<open>finally\<close> block that rebinds and deletes
  \<open>mnemonic\<close> guards the \<open>try\<close> block only, and both programs return before it: the
  registration program when the count is not between 1 and 1000, both programs when the
  phrase has the wrong number of words. On these paths \<open>main\<close> ends with the variable
  still bound to the phrase that was typed.
\<close>

theorem seed_not_cleared_on_early_return:
  "register_main demo_lib (server 200) ''yes'' phrase ''0'' start
     = \<lparr>outcome = Aborted CountOutOfRange, mnemonic_var = Holding phrase, final = start\<rparr>
   \<and> consolidate_main demo_lib (server 200) ''addr1dest'' (phrase @ '' m'')
         (registered_world [''addr13130''])
     = \<lparr>outcome = Aborted (InvalidMnemonic 13), mnemonic_var = Holding (phrase @ '' m''),
        final = emit (Sleep 3000) (registered_world [''addr13130''])\<rparr>"
  by (simp add: register_main_def consolidate_main_def phrase_def py_lower_def py_strip_def
        py_split_def py_int_def digit_val_def lower_cp_def is_space_def S_def
        valid_word_count_def load_registered_addresses_def registered_world_def no_files_def
        has_address_def Let_def)

end
